theory Spec2Isabelle
  imports Complex_Main
begin

section \<open>Data model (assistance/models.py)\<close>

text \<open>
  The three Django models become records and the tables of the database become lists of
  rows, in the order in which an unordered query returns them (no model declares an
  ordering and no query of services.py has an \<open>order_by\<close>, so nothing in the code fixes
  that order). A coordinate is a finite double, read as the real number it denotes; what
  the operations on doubles return is the subject of the next section. Timestamps
  (\<open>created_at\<close>, \<open>dispatched_at\<close>) and the automatic key of an assignment are never read
  by the service layer and are left out.
\<close>

datatype request_status = PENDING | DISPATCHED | COMPLETED | CANCELLED

record provider =
  p_id :: int
  p_name :: string
  phone :: string
  p_lat :: real
  p_lon :: real
  is_available :: bool

record assistance_request =
  r_id :: int
  customer_name :: string
  policy_number :: string
  r_lat :: real
  r_lon :: real
  issue_desc :: string
  status :: request_status

text \<open>A ServiceAssignment row holds the keys of the request and of the provider it links.\<close>

record service_assignment =
  sa_request :: int
  sa_provider :: int

text \<open>
  The database server is configured outside services.py. One of its properties decides
  what two queries of the service layer do: whether it accepts a row lock
  (\<open>SELECT ... FOR UPDATE\<close>) on a query that reaches a nullable relation through an outer
  join. PostgreSQL refuses such a statement (\<open>FOR UPDATE cannot be applied to the nullable
  side of an outer join\<close>, which Django raises as NotSupportedError); MySQL accepts it,
  and for SQLite Django leaves the lock out of the statement. The field
  \<open>locks_outer_join\<close> records which kind of server holds the tables.
\<close>

record database =
  locks_outer_join :: bool
  providers :: "provider list"
  requests :: "assistance_request list"
  assignments :: "service_assignment list"

text \<open>
  The exceptions the service layer can raise: \<open>AssistanceRequest.DoesNotExist\<close> and
  \<open>MultipleObjectsReturned\<close> from \<open>.get\<close>, \<open>ValueError\<close> and \<open>Exception\<close> with their
  messages, \<open>IntegrityError\<close> from the unique constraint of the one-to-one field,
  \<open>RelatedObjectDoesNotExist\<close> when a foreign key points at no row, and
  \<open>NotSupportedError\<close> from a statement the database server refuses.
\<close>

datatype error =
    DoesNotExist
  | MultipleObjectsReturned
  | ValueError string
  | PyException string
  | IntegrityError
  | RelatedObjectDoesNotExist
  | NotSupportedError

text \<open>
  A callback registered with \<open>transaction.on_commit\<close>; the only one in the code is
  \<open>lambda rid=req.id: notify_insurance_company_task.delay(rid)\<close>.
\<close>

datatype hook = NotifyDelay int

text \<open>
  The world outside a transaction: the committed database and the task queue, holding
  the request ids of the notification jobs enqueued with \<open>.delay\<close>.
\<close>

record world =
  db :: database
  task_queue :: "int list"

section \<open>Arithmetic on doubles\<close>

text \<open>
  Python's float is the IEEE-754 double. The result of an operator is the exact result
  rounded to a double, and the functions of the \<open>math\<close> module return what the C
  library returns, so neither is the real-number operation of the same name. The
  operations that \<open>_haversine_distance\<close> uses are therefore a parameter of the model:
  \<open>+\<close>, \<open>-\<close>, \<open>*\<close>, \<open>/\<close>, \<open>**\<close> with an integer exponent, and \<open>math.radians\<close>,
  \<open>math.sin\<close>, \<open>math.cos\<close>, \<open>math.sqrt\<close>, \<open>math.atan2\<close> on arguments in their domain.
  An integer literal of the source that meets a float (\<open>2\<close>, \<open>1\<close>, \<open>6371\<close>) is converted
  to the double of the same value.
\<close>

record float_ops =
  f_add :: "real \<Rightarrow> real \<Rightarrow> real"
  f_sub :: "real \<Rightarrow> real \<Rightarrow> real"
  f_mul :: "real \<Rightarrow> real \<Rightarrow> real"
  f_div :: "real \<Rightarrow> real \<Rightarrow> real"
  f_pow :: "real \<Rightarrow> nat \<Rightarrow> real"
  m_radians :: "real \<Rightarrow> real"
  m_sin :: "real \<Rightarrow> real"
  m_cos :: "real \<Rightarrow> real"
  m_sqrt :: "real \<Rightarrow> real"
  m_atan2 :: "real \<Rightarrow> real \<Rightarrow> real"

text \<open>The operations of the reals, which doubles approximate.\<close>

definition radians :: "real \<Rightarrow> real" where
  "radians d = d * pi / 180"

text \<open>The angle of the point \<open>(x, y)\<close> in \<open>(-pi, pi]\<close>.\<close>

definition atan2 :: "real \<Rightarrow> real \<Rightarrow> real" where
  "atan2 y x =
     (if 0 < x then arctan (y / x)
      else if x < 0 then (if 0 \<le> y then arctan (y / x) + pi else arctan (y / x) - pi)
      else if 0 < y then pi / 2
      else if y < 0 then - (pi / 2)
      else 0)"

definition exact_ops :: float_ops where
  "exact_ops =
     \<lparr>f_add = (+), f_sub = (-), f_mul = (*), f_div = (/), f_pow = (^),
      m_radians = radians, m_sin = sin, m_cos = cos, m_sqrt = sqrt, m_atan2 = atan2\<rparr>"

text \<open>
  A sample of double arithmetic (CPython on glibc, x86-64): the operations at the
  arguments that the examples of this theory reach, each double written as the fraction
  it denotes. \<open>884279719003555 / 2 ^ 48\<close> is the double \<open>math.pi\<close>. At every other
  argument an operation of the sample is the exact one, which is also what the machine
  returns wherever the examples reach it (\<open>82 - (-82)\<close>, \<open>x / 2\<close>, \<open>1 * 1\<close>,
  \<open>math.sin(0.0)\<close>, \<open>math.cos(0.0)\<close>, \<open>math.sqrt(1.0)\<close>, \<open>math.atan2(0.0, 1.0)\<close>).
\<close>

definition binary64_sample :: float_ops where
  "binary64_sample =
     \<lparr>f_add = (\<lambda>x y. if x = 8832737443003841 / 2 ^ 53 \<and> y = 2791388987794435 / 2 ^ 57
                       then 4503599627370497 / 2 ^ 52 else x + y),
      f_sub = (-),
      f_mul = (\<lambda>x y. if x = 2507119702494989 / 2 ^ 54 \<and> y = 2507119702494989 / 2 ^ 54
                       then 2791388987794435 / 2 ^ 57
                     else if x = 6371 \<and> y = 884279719003555 / 2 ^ 48
                       then 2750852582896313 / 2 ^ 37
                     else x * y),
      f_div = (/),
      f_pow = (\<lambda>x n. if x = 4459770905381437 / 2 ^ 52 \<and> n = 2
                       then 8832737443003841 / 2 ^ 53 else x ^ n),
      m_radians = (\<lambda>x. if x = 82 then 6445416618514801 / 2 ^ 52
                       else if x = - 82 then - (6445416618514801 / 2 ^ 52)
                       else if x = 164 then 6445416618514801 / 2 ^ 51
                       else if x = 180 then 884279719003555 / 2 ^ 48
                       else radians x),
      m_sin = (\<lambda>x. if x = 6445416618514801 / 2 ^ 52 then 4459770905381437 / 2 ^ 52
                   else if x = 884279719003555 / 2 ^ 49 then 1
                   else sin x),
      m_cos = (\<lambda>x. if x = 6445416618514801 / 2 ^ 52 \<or> x = - (6445416618514801 / 2 ^ 52)
                     then 2507119702494989 / 2 ^ 54
                   else cos x),
      m_sqrt = (\<lambda>x. if x = 4503599627370497 / 2 ^ 52 then 1 else sqrt x),
      m_atan2 = (\<lambda>y x. if y = 1 \<and> x = 0 then 884279719003555 / 2 ^ 49 else atan2 y x)\<rparr>"

text \<open>
  Two properties of an arithmetic, for stating what the distance function keeps of the
  algebra of the formula. Operations on doubles are exact where the exact result is 0 or
  1, and rounding is symmetric under a change of sign; a C library whose sine is odd and
  whose \<open>pow(x, 2)\<close> is even has the second property as well.
\<close>

definition exact_at_zero :: "float_ops \<Rightarrow> bool" where
  "exact_at_zero fp =
     ((\<forall>x. f_sub fp x x = 0) \<and> f_sub fp 1 0 = 1 \<and> f_add fp 0 0 = 0
      \<and> (\<forall>x. f_mul fp x 0 = 0) \<and> f_div fp 0 2 = 0 \<and> f_pow fp 0 2 = 0
      \<and> m_radians fp 0 = 0 \<and> m_sin fp 0 = 0 \<and> m_sqrt fp 0 = 0 \<and> m_sqrt fp 1 = 1
      \<and> m_atan2 fp 0 1 = 0)"

definition sign_symmetric :: "float_ops \<Rightarrow> bool" where
  "sign_symmetric fp =
     ((\<forall>x y. f_sub fp y x = - f_sub fp x y) \<and> (\<forall>x y. f_mul fp x y = f_mul fp y x)
      \<and> (\<forall>x. f_div fp (- x) 2 = - f_div fp x 2) \<and> (\<forall>x. f_pow fp (- x) 2 = f_pow fp x 2)
      \<and> (\<forall>x. m_radians fp (- x) = - m_radians fp x) \<and> (\<forall>x. m_sin fp (- x) = - m_sin fp x))"

section \<open>Distance (services.py, lines 14-27)\<close>

text \<open>\<open>math.sqrt\<close> raises ValueError on a negative argument.\<close>

definition math_sqrt :: "float_ops \<Rightarrow> real \<Rightarrow> error + real" where
  "math_sqrt fp x =
     (if x < 0 then Inl (ValueError ''math domain error'') else Inr (m_sqrt fp x))"

text \<open>
  \<open>_haversine_distance\<close>, operation by operation. In line 24 \<open>**\<close> binds tighter than
  \<open>*\<close>, and \<open>*\<close> associates to the left; in line 26 \<open>math.sqrt(a)\<close> is evaluated
  before \<open>math.sqrt(1 - a)\<close>.
\<close>

definition haversine_distance ::
  "float_ops \<Rightarrow> real \<Rightarrow> real \<Rightarrow> real \<Rightarrow> real \<Rightarrow> error + real" where
  "haversine_distance fp lat1 lon1 lat2 lon2 =
     (let r = 6371;
          phi1 = m_radians fp lat1;
          phi2 = m_radians fp lat2;
          d_phi = m_radians fp (f_sub fp lat2 lat1);
          d_lambda = m_radians fp (f_sub fp lon2 lon1);
          a = f_add fp (f_pow fp (m_sin fp (f_div fp d_phi 2)) 2)
                (f_mul fp (f_mul fp (m_cos fp phi1) (m_cos fp phi2))
                   (f_pow fp (m_sin fp (f_div fp d_lambda 2)) 2))
      in case math_sqrt fp a of
           Inl e \<Rightarrow> Inl e
         | Inr sa \<Rightarrow>
             (case math_sqrt fp (f_sub fp 1 a) of
                Inl e \<Rightarrow> Inl e
              | Inr sb \<Rightarrow> let c = f_mul fp 2 (m_atan2 fp sa sb) in Inr (f_mul fp r c)))"

text \<open>
  The haversine formula as the specification words it: with
  \<open>hav \<theta> = sin\<^sup>2 (\<theta> / 2)\<close>, the great-circle distance on a sphere of radius
  6371 km is \<open>2 r arcsin (sqrt (hav \<Delta>\<phi> + cos \<phi>1 cos \<phi>2 hav \<Delta>\<lambda>))\<close>.
\<close>

definition hav :: "real \<Rightarrow> real" where
  "hav \<theta> = (sin (\<theta> / 2))\<^sup>2"

definition haversine_formula_km :: "real \<Rightarrow> real \<Rightarrow> real \<Rightarrow> real \<Rightarrow> real" where
  "haversine_formula_km lat1 lon1 lat2 lon2 =
     2 * 6371 * arcsin (sqrt (hav (radians (lat2 - lat1))
                  + cos (radians lat1) * cos (radians lat2) * hav (radians (lon2 - lon1))))"

text \<open>The key of \<open>min\<close> in dispatch: the computed distance from a request to a provider.\<close>

abbreviation distance_to ::
  "float_ops \<Rightarrow> assistance_request \<Rightarrow> provider \<Rightarrow> error + real" where
  "distance_to fp req p \<equiv> haversine_distance fp (r_lat req) (r_lon req) (p_lat p) (p_lon p)"

section \<open>Python's min with a key\<close>

text \<open>
  \<open>min(xs, key=f)\<close> walks the sequence once, keeps the best item with its key and
  replaces it only when the next key is strictly smaller; an exception of the key
  function propagates.
\<close>

fun min_loop :: "('a \<Rightarrow> error + real) \<Rightarrow> 'a \<Rightarrow> real \<Rightarrow> 'a list \<Rightarrow> error + 'a" where
  "min_loop key best kb [] = Inr best"
| "min_loop key best kb (x # xs) =
     (case key x of
        Inl e \<Rightarrow> Inl e
      | Inr kx \<Rightarrow> if kx < kb then min_loop key x kx xs else min_loop key best kb xs)"

definition py_min :: "'a list \<Rightarrow> ('a \<Rightarrow> error + real) \<Rightarrow> error + 'a" where
  "py_min xs key =
     (case xs of
        [] \<Rightarrow> Inl (ValueError ''min() arg is an empty sequence'')
      | x # rest \<Rightarrow> (case key x of Inl e \<Rightarrow> Inl e | Inr kx \<Rightarrow> min_loop key x kx rest))"

section \<open>Queries and writes\<close>

text \<open>
  \<open>AssistanceRequest.objects.select_for_update().select_related().get(id=request_id)\<close>:
  \<open>select_related()\<close> without arguments follows the non-null foreign keys of the model,
  of which AssistanceRequest has none, so the statement reads and locks one table.
\<close>

definition get_request :: "database \<Rightarrow> int \<Rightarrow> error + assistance_request" where
  "get_request d request_id =
     (case filter (\<lambda>r. r_id r = request_id) (requests d) of
        [] \<Rightarrow> Inl DoesNotExist
      | [r] \<Rightarrow> Inr r
      | _ \<Rightarrow> Inl MultipleObjectsReturned)"

text \<open>
  \<open>AssistanceRequest.objects.select_for_update().select_related("assignment__provider")
  .get(id=request_id)\<close>: the request is joined to its assignment, the reverse side of the
  one-to-one field and so a nullable relation, under the row lock. A server that refuses
  to lock through such a join refuses the statement; one that accepts it returns the same
  row as the plain \<open>.get\<close>, with the assignment and its provider already loaded.
\<close>

definition get_request_with_assignment :: "database \<Rightarrow> int \<Rightarrow> error + assistance_request" where
  "get_request_with_assignment d request_id =
     (if locks_outer_join d then get_request d request_id else Inl NotSupportedError)"

text \<open>
  \<open>getattr(req, "assignment", None)\<close>: the reverse side of the one-to-one field, None
  when no assignment row points at the request.
\<close>

definition assignment_of :: "database \<Rightarrow> assistance_request \<Rightarrow> service_assignment option" where
  "assignment_of d req = find (\<lambda>a. sa_request a = r_id req) (assignments d)"

text \<open>\<open>assignment.provider\<close>: the row the foreign key points at.\<close>

definition provider_of :: "database \<Rightarrow> service_assignment \<Rightarrow> error + provider" where
  "provider_of d a =
     (case find (\<lambda>p. p_id p = sa_provider a) (providers d) of
        None \<Rightarrow> Inl RelatedObjectDoesNotExist
      | Some p \<Rightarrow> Inr p)"

text \<open>
  \<open>provider.save(update_fields=["is_available"])\<close> and
  \<open>req.save(update_fields=["status"])\<close>: an UPDATE of one column of the rows with the
  object's primary key. Every object saved by the service layer was read from its table
  in the same transaction, so the UPDATE always finds its row.
\<close>

definition save_is_available :: "provider \<Rightarrow> database \<Rightarrow> database" where
  "save_is_available p d =
     d\<lparr>providers :=
         map (\<lambda>q. if p_id q = p_id p then q\<lparr>is_available := is_available p\<rparr> else q)
           (providers d)\<rparr>"

definition save_status :: "assistance_request \<Rightarrow> database \<Rightarrow> database" where
  "save_status req d =
     d\<lparr>requests :=
         map (\<lambda>r. if r_id r = r_id req then r\<lparr>status := status req\<rparr> else r)
           (requests d)\<rparr>"

text \<open>
  \<open>ServiceAssignment.objects.create(request=req, provider=provider)\<close>: the INSERT
  violates the unique constraint of the one-to-one field when the request already has
  an assignment.
\<close>

definition create_assignment ::
  "assistance_request \<Rightarrow> provider \<Rightarrow> database \<Rightarrow> error + (service_assignment \<times> database)" where
  "create_assignment req p d =
     (if \<exists>a \<in> set (assignments d). sa_request a = r_id req then Inl IntegrityError
      else let a = \<lparr>sa_request = r_id req, sa_provider = p_id p\<rparr>
           in Inr (a, d\<lparr>assignments := assignments d @ [a]\<rparr>))"

text \<open>The two UPDATE statements as list transformers, for stating results.\<close>

abbreviation set_available :: "int \<Rightarrow> bool \<Rightarrow> provider list \<Rightarrow> provider list" where
  "set_available pid b ps \<equiv> map (\<lambda>q. if p_id q = pid then q\<lparr>is_available := b\<rparr> else q) ps"

abbreviation set_status ::
  "int \<Rightarrow> request_status \<Rightarrow> assistance_request list \<Rightarrow> assistance_request list" where
  "set_status rid s rs \<equiv> map (\<lambda>r. if r_id r = rid then r\<lparr>status := s\<rparr> else r) rs"

section \<open>Transactions\<close>

text \<open>
  \<open>with transaction.atomic():\<close> as the outermost block. The body works on the database
  and collects its on-commit callbacks. When it raises, nothing is written and the
  callbacks are dropped; when it returns, its writes are committed and only then the
  callbacks run, in the order of their registration.
\<close>

definition commit :: "database \<Rightarrow> world \<Rightarrow> world" where
  "commit d w = w\<lparr>db := d\<rparr>"

fun run_hook :: "hook \<Rightarrow> world \<Rightarrow> world" where
  "run_hook (NotifyDelay rid) w = w\<lparr>task_queue := task_queue w @ [rid]\<rparr>"

definition atomic ::
  "(database \<Rightarrow> error + ('a \<times> database \<times> hook list)) \<Rightarrow> world \<Rightarrow> (error + 'a) \<times> world" where
  "atomic body w =
     (case body (db w) of
        Inl e \<Rightarrow> (Inl e, w)
      | Inr (res, d', hooks) \<Rightarrow> (Inr res, fold run_hook hooks (commit d' w)))"

section \<open>AssistanceService (services.py)\<close>

definition find_nearest_available_provider ::
  "float_ops \<Rightarrow> database \<Rightarrow> real \<Rightarrow> real \<Rightarrow> error + provider" where
  "find_nearest_available_provider fp d lat lon =
     (let available_providers = filter is_available (providers d)
      in if available_providers = [] then Inl (ValueError ''No available providers found'')
         else py_min available_providers
                (\<lambda>p. haversine_distance fp lat lon (p_lat p) (p_lon p)))"

definition assign_provider_body ::
  "float_ops \<Rightarrow> int \<Rightarrow> database \<Rightarrow> error + (service_assignment \<times> database \<times> hook list)" where
  "assign_provider_body fp request_id d =
     (case get_request d request_id of
        Inl e \<Rightarrow> Inl e
      | Inr req \<Rightarrow>
          if status req \<noteq> PENDING
          then Inl (ValueError ''Only pending requests can be dispatched'')
          else
            let providers_l = filter is_available (providers d) in
            if providers_l = [] then Inl (ValueError ''No available providers to assign'')
            else
              (case py_min providers_l
                      (\<lambda>p. haversine_distance fp (r_lat req) (r_lon req) (p_lat p) (p_lon p)) of
                 Inl e \<Rightarrow> Inl e
               | Inr provider \<Rightarrow>
                   if \<not> is_available provider then Inl (PyException ''Provider is busy!'')
                   else
                     let d1 = save_is_available (provider\<lparr>is_available := False\<rparr>) d in
                     (case create_assignment req provider d1 of
                        Inl e \<Rightarrow> Inl e
                      | Inr (assignment, d2) \<Rightarrow>
                          let d3 = save_status (req\<lparr>status := DISPATCHED\<rparr>) d2
                          in Inr (assignment, d3, [NotifyDelay (r_id req)]))))"

definition assign_provider_atomic ::
  "float_ops \<Rightarrow> int \<Rightarrow> world \<Rightarrow> (error + service_assignment) \<times> world" where
  "assign_provider_atomic fp request_id w = atomic (assign_provider_body fp request_id) w"

definition complete_body :: "int \<Rightarrow> database \<Rightarrow> error + (unit \<times> database \<times> hook list)" where
  "complete_body request_id d =
     (case get_request_with_assignment d request_id of
        Inl e \<Rightarrow> Inl e
      | Inr req \<Rightarrow>
          if status req \<noteq> DISPATCHED
          then Inl (ValueError ''Only dispatched requests can be completed'')
          else
            (case assignment_of d req of
               None \<Rightarrow> Inl (ValueError ''Request has no assignment'')
             | Some assignment \<Rightarrow>
                 (case provider_of d assignment of
                    Inl e \<Rightarrow> Inl e
                  | Inr provider \<Rightarrow>
                      let d1 = save_is_available (provider\<lparr>is_available := True\<rparr>) d;
                          d2 = save_status (req\<lparr>status := COMPLETED\<rparr>) d1
                      in Inr ((), d2, []))))"

definition complete_request :: "int \<Rightarrow> world \<Rightarrow> (error + unit) \<times> world" where
  "complete_request request_id w = atomic (complete_body request_id) w"

text \<open>
  In \<open>cancel_request\<close> the provider is released inside \<open>if assignment:\<close>, so a
  DISPATCHED request without an assignment falls through to the status write.
\<close>

definition cancel_body :: "int \<Rightarrow> database \<Rightarrow> error + (unit \<times> database \<times> hook list)" where
  "cancel_body request_id d =
     (case get_request_with_assignment d request_id of
        Inl e \<Rightarrow> Inl e
      | Inr req \<Rightarrow>
          if status req = COMPLETED
          then Inl (ValueError ''Completed request cannot be cancelled'')
          else if status req = CANCELLED then Inr ((), d, [])
          else
            (case (if status req = DISPATCHED then
                     (case assignment_of d req of
                        None \<Rightarrow> Inr d
                      | Some assignment \<Rightarrow>
                          (case provider_of d assignment of
                             Inl e \<Rightarrow> Inl e
                           | Inr provider \<Rightarrow>
                               Inr (save_is_available (provider\<lparr>is_available := True\<rparr>) d)))
                   else Inr d) of
               Inl e \<Rightarrow> Inl e
             | Inr d1 \<Rightarrow>
                 let d2 = save_status (req\<lparr>status := CANCELLED\<rparr>) d1
                 in Inr ((), d2, [])))"

definition cancel_request :: "int \<Rightarrow> world \<Rightarrow> (error + unit) \<times> world" where
  "cancel_request request_id w = atomic (cancel_body request_id) w"

section \<open>Notification task (tasks.py)\<close>

text \<open>
  One run of \<open>notify_insurance_company_task\<close>. Its inputs are \<open>self.request.retries\<close>,
  the outcome of the mocked API call (\<open>random.random() < 0.3\<close> raises InsuranceAPIError)
  and the request id. It returns the success value, or asks the worker for a retry after
  a countdown in seconds, or raises InsuranceAPIError for good.
\<close>

datatype task_result = Success int | RetryAfter nat | Raised

definition max_retries :: nat where
  "max_retries = 5"

text \<open>
  \<open>self.retry(exc=exc, countdown=countdown)\<close> of the task library: it re-sends the task
  with \<open>retries + 1\<close> to run after \<open>countdown\<close> seconds, unless that exceeds
  \<open>max_retries\<close>, in which case it raises \<open>exc\<close>.
\<close>

definition task_retry :: "nat \<Rightarrow> nat \<Rightarrow> task_result" where
  "task_retry retries countdown =
     (if max_retries < retries + 1 then Raised else RetryAfter countdown)"

definition notify_insurance_company_task :: "nat \<Rightarrow> bool \<Rightarrow> int \<Rightarrow> task_result" where
  "notify_insurance_company_task retries api_error request_id =
     (if \<not> api_error then Success request_id
      else
        let retry_count = retries in
        if retry_count \<ge> max_retries then Raised
        else
          let backoff_minutes = 2 ^ retry_count;
              countdown = min backoff_minutes 16 * 60
          in task_retry retries countdown)"

text \<open>
  The worker's side of a job: it runs the task, and on a retry runs it again with
  \<open>retries + 1\<close>. The list gives the outcome of the API call of each run in turn; the
  result is the list of countdowns waited and the final result (None while the job is
  still waiting for a run the list does not script).
\<close>

fun run_job :: "nat \<Rightarrow> bool list \<Rightarrow> int \<Rightarrow> nat list \<times> task_result option" where
  "run_job retries [] request_id = ([], None)"
| "run_job retries (api_error # rest) request_id =
     (case notify_insurance_company_task retries api_error request_id of
        RetryAfter countdown \<Rightarrow>
          (case run_job (Suc retries) rest request_id of (cs, res) \<Rightarrow> (countdown # cs, res))
      | res \<Rightarrow> ([], Some res))"

section \<open>Sequences of calls\<close>

datatype operation = Dispatch int | Complete int | Cancel int

fun exec :: "float_ops \<Rightarrow> operation \<Rightarrow> world \<Rightarrow> world" where
  "exec fp (Dispatch rid) w = snd (assign_provider_atomic fp rid w)"
| "exec fp (Complete rid) w = snd (complete_request rid w)"
| "exec fp (Cancel rid) w = snd (cancel_request rid w)"

text \<open>The exception a call raises, None when it returns.\<close>

fun raised :: "float_ops \<Rightarrow> operation \<Rightarrow> world \<Rightarrow> error option" where
  "raised fp (Dispatch rid) w =
     (case fst (assign_provider_atomic fp rid w) of Inl e \<Rightarrow> Some e | Inr _ \<Rightarrow> None)"
| "raised fp (Complete rid) w =
     (case fst (complete_request rid w) of Inl e \<Rightarrow> Some e | Inr _ \<Rightarrow> None)"
| "raised fp (Cancel rid) w =
     (case fst (cancel_request rid w) of Inl e \<Rightarrow> Some e | Inr _ \<Rightarrow> None)"

definition run :: "float_ops \<Rightarrow> operation list \<Rightarrow> world \<Rightarrow> world" where
  "run fp ops w = fold (exec fp) ops w"

fun request_of :: "operation \<Rightarrow> int" where
  "request_of (Dispatch rid) = rid"
| "request_of (Complete rid) = rid"
| "request_of (Cancel rid) = rid"

text \<open>The status a call tries to give its request, and the error it raises when it may not.\<close>

fun target :: "operation \<Rightarrow> request_status" where
  "target (Dispatch rid) = DISPATCHED"
| "target (Complete rid) = COMPLETED"
| "target (Cancel rid) = CANCELLED"

fun invalid_state :: "operation \<Rightarrow> error" where
  "invalid_state (Dispatch rid) = ValueError ''Only pending requests can be dispatched''"
| "invalid_state (Complete rid) = ValueError ''Only dispatched requests can be completed''"
| "invalid_state (Cancel rid) = ValueError ''Completed request cannot be cancelled''"

text \<open>The transition relation of the specification.\<close>

fun allowed :: "request_status \<Rightarrow> request_status \<Rightarrow> bool" where
  "allowed PENDING DISPATCHED = True"
| "allowed DISPATCHED COMPLETED = True"
| "allowed DISPATCHED CANCELLED = True"
| "allowed PENDING CANCELLED = True"
| "allowed _ _ = False"

definition status_of :: "world \<Rightarrow> int \<Rightarrow> request_status option" where
  "status_of w rid = (case get_request (db w) rid of Inl e \<Rightarrow> None | Inr r \<Rightarrow> Some (status r))"

section \<open>Predicates of the specification\<close>

definition non_terminal :: "database \<Rightarrow> int \<Rightarrow> bool" where
  "non_terminal d rid =
     (\<exists>r \<in> set (requests d). r_id r = rid \<and> status r \<noteq> COMPLETED \<and> status r \<noteq> CANCELLED)"

definition initial_state :: "database \<Rightarrow> bool" where
  "initial_state d =
     (assignments d = [] \<and> (\<forall>r \<in> set (requests d). status r = PENDING)
      \<and> (\<forall>p \<in> set (providers d). is_available p))"

definition no_double_booking :: "database \<Rightarrow> bool" where
  "no_double_booking d =
     (\<forall>a \<in> set (assignments d). \<forall>b \<in> set (assignments d).
        sa_provider a = sa_provider b \<and> non_terminal d (sa_request a)
          \<and> non_terminal d (sa_request b) \<longrightarrow> sa_request a = sa_request b)"

definition busy_when_linked :: "database \<Rightarrow> bool" where
  "busy_when_linked d =
     (\<forall>a \<in> set (assignments d). non_terminal d (sa_request a) \<longrightarrow>
        (\<forall>p \<in> set (providers d). p_id p = sa_provider a \<longrightarrow> \<not> is_available p))"

definition no_pending_assignment :: "database \<Rightarrow> bool" where
  "no_pending_assignment d =
     (\<forall>a \<in> set (assignments d). \<forall>r \<in> set (requests d).
        r_id r = sa_request a \<longrightarrow> status r \<noteq> PENDING)"

definition engine_inv :: "database \<Rightarrow> bool" where
  "engine_inv d = (no_pending_assignment d \<and> no_double_booking d \<and> busy_when_linked d)"


section \<open>Example states\<close>

definition mk_provider :: "int \<Rightarrow> real \<Rightarrow> real \<Rightarrow> bool \<Rightarrow> provider" where
  "mk_provider i la lo av =
     \<lparr>p_id = i, p_name = ''tow truck'', phone = ''555'', p_lat = la, p_lon = lo,
      is_available = av\<rparr>"

definition mk_request :: "int \<Rightarrow> real \<Rightarrow> real \<Rightarrow> request_status \<Rightarrow> assistance_request" where
  "mk_request i la lo st =
     \<lparr>r_id = i, customer_name = ''customer'', policy_number = ''P-1'', r_lat = la,
      r_lon = lo, issue_desc = ''flat tyre'', status = st\<rparr>"

text \<open>
  Request 1 at (0, 0); provider 5 on the far side of the globe, providers 7 and 2 both
  at the request's position, returned by the database in the order 5, 7, 2.
\<close>

definition tie_world :: world where
  "tie_world =
     \<lparr>db = \<lparr>locks_outer_join = True,
            providers = [mk_provider 5 0 180 True, mk_provider 7 0 0 True, mk_provider 2 0 0 True],
            requests = [mk_request 1 0 0 PENDING, mk_request 2 0 0 PENDING],
            assignments = []\<rparr>,
      task_queue = []\<rparr>"

text \<open>
  Provider 7 is out on request 1; request 2 is waiting; requests 3 and 4 are closed;
  request 5 is marked DISPATCHED but no assignment row points at it.
\<close>

definition served_world :: world where
  "served_world =
     \<lparr>db = \<lparr>locks_outer_join = True,
            providers = [mk_provider 7 0 0 False],
            requests = [mk_request 1 0 0 DISPATCHED, mk_request 2 0 0 PENDING,
                        mk_request 3 0 0 COMPLETED, mk_request 4 0 0 CANCELLED,
                        mk_request 5 0 0 DISPATCHED],
            assignments = [\<lparr>sa_request = 1, sa_provider = 7\<rparr>]\<rparr>,
      task_queue = [1]\<rparr>"

text \<open>The same tables on a PostgreSQL server.\<close>

definition postgres_world :: world where
  "postgres_world = served_world\<lparr>db := (db served_world)\<lparr>locks_outer_join := False\<rparr>\<rparr>"


text \<open>
  Request 1 at 82 S, 179 W is PENDING and the only provider, 7, is available at the
  opposite point of the globe, 82 N, 1 E.
\<close>

definition antipode_world :: world where
  "antipode_world =
     \<lparr>db = \<lparr>locks_outer_join = True,
            providers = [mk_provider 7 82 1 True],
            requests = [mk_request 1 (- 82) (- 179) PENDING],
            assignments = []\<rparr>,
      task_queue = []\<rparr>"

section \<open>Notification backoff\<close>

lemma replicate_six: "replicate 6 x = [x, x, x, x, x, x]"
  by (simp add: numeral_eq_Suc)

text \<open>
  C7. A run numbered \<open>k\<close> (the value of \<open>self.request.retries\<close>, starting at 0) whose
  API call fails asks for a retry after \<open>min (2 ^ k) 16\<close> minutes (the countdown is in
  seconds) as long as \<open>k < 5\<close>, so the countdowns of runs 0 to 4 are 1, 2, 4, 8 and 16
  minutes; a failing run with \<open>k \<ge> 5\<close> raises the error instead of retrying. A job whose
  first six API calls fail therefore waits 60, 120, 240, 480 and 960 seconds and then
  ends with the error, whatever would have come after.
\<close>

theorem notify_backoff_schedule:
  "(k < 5 \<longrightarrow> notify_insurance_company_task k True rid = RetryAfter (min (2 ^ k) 16 * 60))
   \<and> map (\<lambda>k. notify_insurance_company_task k True rid) [0, 1, 2, 3, 4]
       = map (\<lambda>minutes. RetryAfter (minutes * 60)) [1, 2, 4, 8, 16]
   \<and> (5 \<le> k \<longrightarrow> notify_insurance_company_task k True rid = Raised)
   \<and> run_job 0 (replicate 6 True @ rest) rid = ([60, 120, 240, 480, 960], Some Raised)"
  by (simp add: notify_insurance_company_task_def task_retry_def max_retries_def Let_def
      replicate_six)

theorem notify_backoff_schedule_witness:
  "(3::nat) < 5 \<and> notify_insurance_company_task 3 True 42 = RetryAfter (8 * 60)
   \<and> (5::nat) \<le> 5 \<and> notify_insurance_company_task 5 True 42 = Raised"
  using notify_backoff_schedule [of 3 42 "[]"] notify_backoff_schedule [of 5 42 "[]"]
  by simp

section \<open>The distance function\<close>

text \<open>
  The argument of the two square roots lies between 0 and 1 for all real coordinates
  (it is a convex combination of two haversines), so neither \<open>math.sqrt\<close> can raise.
\<close>

lemma sin_half_squared: "(sin (x / 2))\<^sup>2 = (1 - cos x) / 2" for x :: real
  using cos_double_sin [of "x / 2"] by simp

lemma convex_identity:
  fixes c1 c2 s1 s2 k :: real
  shows "(1 - (c1 * c2 + s1 * s2)) / 2 + c1 * c2 * ((1 - k) / 2)
         = (1 - (1 - k) / 2) * ((1 - (c1 * c2 + s1 * s2)) / 2)
           + (1 - k) / 2 * ((1 + (c1 * c2 - s1 * s2)) / 2)"
  by (simp add: field_simps)

lemma haversine_arg_convex:
  fixes p1 p2 l :: real
  shows "(sin ((p2 - p1) / 2))\<^sup>2 + cos p1 * cos p2 * (sin (l / 2))\<^sup>2
         = (1 - (sin (l / 2))\<^sup>2) * ((1 - cos (p2 - p1)) / 2)
           + (sin (l / 2))\<^sup>2 * ((1 + cos (p1 + p2)) / 2)"
proof -
  have a: "cos (p1 + p2) = cos p1 * cos p2 - sin p1 * sin p2"
    by (rule cos_add)
  have b: "cos (p2 - p1) = cos p1 * cos p2 + sin p1 * sin p2"
    by (simp add: cos_diff)
  show ?thesis
    unfolding sin_half_squared a b by (rule convex_identity)
qed


lemma convex_unit:
  fixes h x y :: real
  assumes "0 \<le> h" "h \<le> 1" "0 \<le> x" "x \<le> 1" "0 \<le> y" "y \<le> 1"
  shows "0 \<le> (1 - h) * x + h * y \<and> (1 - h) * x + h * y \<le> 1"
proof
  show "0 \<le> (1 - h) * x + h * y" using assms by simp
  have "(1 - h) * x \<le> (1 - h) * 1" using assms by (intro mult_left_mono) auto
  moreover have "h * y \<le> h * 1" using assms by (intro mult_left_mono) auto
  ultimately show "(1 - h) * x + h * y \<le> 1" by simp
qed

lemma sin_squared_unit: "0 \<le> (sin x)\<^sup>2 \<and> (sin x)\<^sup>2 \<le> 1" for x :: real
  using sin_cos_squared_add [of x] zero_le_power2 [of "cos x"] zero_le_power2 [of "sin x"]
  by linarith

lemma half_unit:
  fixes c :: real
  assumes "- 1 \<le> c" "c \<le> 1"
  shows "0 \<le> (1 - c) / 2" "(1 - c) / 2 \<le> 1" "0 \<le> (1 + c) / 2" "(1 + c) / 2 \<le> 1"
  using assms by simp_all

lemma haversine_arg_range:
  fixes p1 p2 l :: real
  shows "0 \<le> (sin ((p2 - p1) / 2))\<^sup>2 + cos p1 * cos p2 * (sin (l / 2))\<^sup>2
       \<and> (sin ((p2 - p1) / 2))\<^sup>2 + cos p1 * cos p2 * (sin (l / 2))\<^sup>2 \<le> 1"
proof -
  have x: "0 \<le> (1 - cos (p2 - p1)) / 2" "(1 - cos (p2 - p1)) / 2 \<le> 1"
    by (rule half_unit; simp)+
  have y: "0 \<le> (1 + cos (p1 + p2)) / 2" "(1 + cos (p1 + p2)) / 2 \<le> 1"
    by (rule half_unit; simp)+
  show ?thesis
    unfolding haversine_arg_convex
    using sin_squared_unit [of "l / 2"] x y by (intro convex_unit) simp_all
qed

lemma atan2_sqrt_arcsin:
  fixes a :: real
  assumes "0 \<le> a" "a \<le> 1"
  shows "atan2 (sqrt a) (sqrt (1 - a)) = arcsin (sqrt a)"
proof (cases "a = 1")
  case True
  then show ?thesis by (simp add: atan2_def)
next
  case False
  with assms have pos: "0 < 1 - a" by simp
  define x where "x = sqrt a / sqrt (1 - a)"
  have "x\<^sup>2 = a / (1 - a)"
    using assms pos by (simp add: x_def power_divide)
  then have "1 + x\<^sup>2 = 1 / (1 - a)"
    using pos by (simp add: field_simps)
  then have "sqrt (1 + x\<^sup>2) = 1 / sqrt (1 - a)"
    by (simp add: real_sqrt_divide)
  then have "sin (arctan x) = sqrt a"
    using pos by (simp add: sin_arctan x_def)
  then have "arcsin (sqrt a) = arctan x"
    using arcsin_sin [of "arctan x"] arctan_lbound [of x] arctan_ubound [of x] by simp
  then show ?thesis
    using pos by (simp add: atan2_def x_def)
qed

lemma radians_diff: "radians (x - y) = radians x - radians y"
  by (simp add: radians_def diff_divide_distrib left_diff_distrib)

lemma radians_swap: "radians (y - x) = - radians (x - y)"
  by (simp add: radians_diff)

text \<open>
  In the arithmetic of the reals the code computes the haversine formula: the two
  square roots are defined and the \<open>atan2\<close> form equals the \<open>arcsin\<close> form.
\<close>

lemma haversine_distance_exact:
  "haversine_distance exact_ops lat1 lon1 lat2 lon2
   = Inr (haversine_formula_km lat1 lon1 lat2 lon2)"
proof -
  define a where "a = (sin (radians (lat2 - lat1) / 2))\<^sup>2
      + cos (radians lat1) * cos (radians lat2) * (sin (radians (lon2 - lon1) / 2))\<^sup>2"
  have r: "0 \<le> a \<and> a \<le> 1"
    unfolding a_def radians_diff [of lat2 lat1] by (rule haversine_arg_range)
  have "haversine_distance exact_ops lat1 lon1 lat2 lon2
        = Inr (6371 * (2 * atan2 (sqrt a) (sqrt (1 - a))))"
    using r by (simp add: haversine_distance_def exact_ops_def Let_def math_sqrt_def a_def [symmetric])
  also have "\<dots> = Inr (haversine_formula_km lat1 lon1 lat2 lon2)"
    using r by (simp add: atan2_sqrt_arcsin haversine_formula_km_def hav_def a_def [symmetric])
  finally show ?thesis .
qed

lemma haversine_formula_self: "haversine_formula_km lat lon lat lon = 0"
  by (simp add: haversine_formula_km_def hav_def radians_def)

lemma hav_minus: "hav (- x) = hav x"
  by (simp add: hav_def)

lemma haversine_formula_sym:
  "haversine_formula_km lat1 lon1 lat2 lon2 = haversine_formula_km lat2 lon2 lat1 lon1"
  unfolding haversine_formula_km_def radians_swap [of lat1 lat2] radians_swap [of lon1 lon2] hav_minus
  by (simp add: mult.commute)

text \<open>
  By the formula, two opposite points of the globe are half the circumference apart.
\<close>

lemma haversine_formula_opposite: "haversine_formula_km (- 82) (- 179) 82 1 = 6371 * pi"
proof -
  have c: "cos (radians (- 82)) = cos (radians 82)"
    by (simp add: radians_def)
  have h: "hav (radians 164) = (sin (radians 82))\<^sup>2"
    by (simp add: hav_def radians_def)
  have k: "hav (radians 180) = 1"
    by (simp add: hav_def radians_def)
  have "hav (radians (82 - - 82)) + cos (radians (- 82)) * cos (radians 82) * hav (radians (1 - - 179))
        = (sin (radians 82))\<^sup>2 + (cos (radians 82))\<^sup>2"
    by (simp add: c h k power2_eq_square)
  also have "\<dots> = 1" by (rule sin_cos_squared_add)
  finally show ?thesis by (simp add: haversine_formula_km_def)
qed

text \<open>
  On doubles the only exception of the distance function is the domain error of
  \<open>math.sqrt\<close>.
\<close>

lemma haversine_distance_error:
  "haversine_distance fp lat1 lon1 lat2 lon2 = Inl e \<Longrightarrow> e = ValueError ''math domain error''"
  by (auto simp: haversine_distance_def Let_def math_sqrt_def split: sum.splits if_splits)

text \<open>
  In an arithmetic that is exact at zero the distance from a point to itself is 0, and in
  a sign-symmetric arithmetic the distance function gives the same result, a number or
  the exception, in both directions.
\<close>

lemma exact_ops_laws: "exact_at_zero exact_ops" "sign_symmetric exact_ops"
  by (simp_all add: exact_at_zero_def sign_symmetric_def exact_ops_def radians_def atan2_def)

lemma haversine_distance_self:
  "exact_at_zero fp \<Longrightarrow> haversine_distance fp lat lon lat lon = Inr 0"
  by (simp add: exact_at_zero_def haversine_distance_def Let_def math_sqrt_def)

lemma haversine_distance_sym:
  assumes "sign_symmetric fp"
  shows "haversine_distance fp lat1 lon1 lat2 lon2 = haversine_distance fp lat2 lon2 lat1 lon1"
proof -
  from assms have sub: "\<And>x y. f_sub fp y x = - f_sub fp x y"
    and mul: "\<And>x y. f_mul fp x y = f_mul fp y x"
    and dv: "\<And>x. f_div fp (- x) 2 = - f_div fp x 2"
    and pw: "\<And>x. f_pow fp (- x) 2 = f_pow fp x 2"
    and rad: "\<And>x. m_radians fp (- x) = - m_radians fp x"
    and sn: "\<And>x. m_sin fp (- x) = - m_sin fp x"
    unfolding sign_symmetric_def by blast+
  have s: "f_sub fp lat1 lat2 = - f_sub fp lat2 lat1" "f_sub fp lon1 lon2 = - f_sub fp lon2 lon1"
    by (rule sub)+
  have m: "f_mul fp (m_cos fp (m_radians fp lat2)) (m_cos fp (m_radians fp lat1))
           = f_mul fp (m_cos fp (m_radians fp lat1)) (m_cos fp (m_radians fp lat2))"
    by (rule mul)
  have h: "f_pow fp (m_sin fp (f_div fp (m_radians fp (- x)) 2)) 2
           = f_pow fp (m_sin fp (f_div fp (m_radians fp x) 2)) 2" for x
    by (simp only: rad dv sn pw)
  show ?thesis
    unfolding haversine_distance_def Let_def s h m ..
qed

text \<open>
  The rounded results among the entries of \<open>binary64_sample\<close> are the doubles nearest to
  the exact results: each is within half a unit in the last place.
\<close>

lemma binary64_sample_rounding:
  "\<bar>8832737443003841 / 2 ^ 53 + 2791388987794435 / 2 ^ 57 - 4503599627370497 / 2 ^ 52\<bar>
     \<le> (1 / 2 ^ 53 :: real)"
  "\<bar>(2507119702494989 / 2 ^ 54) * (2507119702494989 / 2 ^ 54) - 2791388987794435 / 2 ^ 57\<bar>
     \<le> (1 / 2 ^ 59 :: real)"
  "\<bar>(4459770905381437 / 2 ^ 52) ^ 2 - 8832737443003841 / 2 ^ 53\<bar> \<le> (1 / 2 ^ 54 :: real)"
  "\<bar>6371 * (884279719003555 / 2 ^ 48) - 2750852582896313 / 2 ^ 37\<bar> \<le> (1 / 2 ^ 39 :: real)"
  by (simp_all add: power2_eq_square abs_le_iff)

text \<open>
  C9 fails on doubles. From 82 S, 179 W to 82 N, 1 E the sum \<open>a\<close> of line 22 is rounded
  to \<open>1 + 2\<^sup>-\<^sup>5\<^sup>2\<close>, so \<open>1 - a\<close> is negative and \<open>math.sqrt(1 - a)\<close> raises
  ValueError: the function returns no distance for this pair, where the haversine formula
  gives \<open>6371 \<pi>\<close> km.
\<close>

theorem haversine_distance_raises_between_opposite_points:
  "haversine_distance binary64_sample (- 82) (- 179) 82 1 = Inl (ValueError ''math domain error'')
   \<and> haversine_formula_km (- 82) (- 179) 82 1 = 6371 * pi"
proof -
  have "haversine_distance binary64_sample (- 82) (- 179) 82 1
        = Inl (ValueError ''math domain error'')"
    by (simp add: haversine_distance_def binary64_sample_def math_sqrt_def Let_def)
  then show ?thesis using haversine_formula_opposite by simp
qed

section \<open>Dispatch\<close>

lemma get_request_Inr_iff:
  "get_request d rid = Inr req \<longleftrightarrow> filter (\<lambda>r. r_id r = rid) (requests d) = [req]"
  by (auto simp: get_request_def split: list.splits)

lemma get_request_row:
  assumes "get_request d rid = Inr req"
  shows "r_id req = rid" "req \<in> set (requests d)"
    "\<And>r. r \<in> set (requests d) \<Longrightarrow> r_id r = rid \<Longrightarrow> r = req"
proof -
  from assms have f: "filter (\<lambda>r. r_id r = rid) (requests d) = [req]"
    by (simp add: get_request_Inr_iff)
  then have s: "{r \<in> set (requests d). r_id r = rid} = {req}"
    by (metis list.set(1) list.simps(15) set_filter)
  from s show "r_id req = rid" "req \<in> set (requests d)" by auto
  fix r assume "r \<in> set (requests d)" "r_id r = rid"
  with s show "r = req" by auto
qed


lemma min_loop_first_minimum:
  assumes "\<forall>x \<in> set xs. key x = Inr (f x)"
  shows "\<exists>pre p post. best # xs = pre @ p # post \<and> min_loop key best (f best) xs = Inr p
           \<and> (\<forall>q \<in> set pre. f p < f q) \<and> (\<forall>q \<in> set post. f p \<le> f q)"
  using assms
proof (induction xs arbitrary: best)
  case Nil
  show ?case by (rule exI [of _ "[]"]) simp
next
  case (Cons x xs)
  then have kx: "key x = Inr (f x)" and rest: "\<forall>y \<in> set xs. key y = Inr (f y)" by simp_all
  show ?case
  proof (cases "f x < f best")
    case True
    from Cons.IH [OF rest, of x] obtain pre p post where
      d: "x # xs = pre @ p # post" and m: "min_loop key x (f x) xs = Inr p"
      and lt: "\<forall>q \<in> set pre. f p < f q" and le: "\<forall>q \<in> set post. f p \<le> f q" by blast
    have "f p \<le> f x"
    proof (cases pre)
      case Nil with d show ?thesis by simp
    next
      case (Cons y ys) with d lt show ?thesis by auto
    qed
    with True have pb: "f p < f best" by simp
    have step: "min_loop key best (f best) (x # xs) = min_loop key x (f x) xs"
      using True kx by simp
    have 1: "best # x # xs = (best # pre) @ p # post" using d by simp
    have 2: "\<forall>q \<in> set (best # pre). f p < f q" using lt pb by simp
    from 1 2 le m step show ?thesis by metis
  next
    case False
    from Cons.IH [OF rest, of best] obtain pre p post where
      d: "best # xs = pre @ p # post" and m: "min_loop key best (f best) xs = Inr p"
      and lt: "\<forall>q \<in> set pre. f p < f q" and le: "\<forall>q \<in> set post. f p \<le> f q" by blast
    have step: "min_loop key best (f best) (x # xs) = min_loop key best (f best) xs"
      using False kx by simp
    show ?thesis
    proof (cases pre)
      case Nil
      with d have pb: "p = best" and px: "post = xs" by simp_all
      have 1: "best # x # xs = [] @ best # (x # xs)" by simp
      have 2: "\<forall>q \<in> set []. f best < f q" by simp
      have 3: "\<forall>q \<in> set (x # xs). f best \<le> f q" using le False pb px by auto
      have 4: "min_loop key best (f best) (x # xs) = Inr best" using step m pb by simp
      from 1 2 3 4 show ?thesis by blast
    next
      case (Cons y ys)
      with d have y: "y = best" and xs: "xs = ys @ p # post" by simp_all
      from lt Cons y have "f p < f best" by simp
      with False have px: "f p < f x" by simp
      have 1: "best # x # xs = (best # x # ys) @ p # post" using xs by simp
      have 2: "\<forall>q \<in> set (best # x # ys). f p < f q" using lt Cons y px by auto
      have 4: "min_loop key best (f best) (x # xs) = Inr p" using step m by simp
      from 1 2 le 4 show ?thesis by blast
    qed
  qed
qed

lemma py_min_first_minimum:
  assumes "xs \<noteq> []" "\<forall>x \<in> set xs. key x = Inr (f x)"
  shows "\<exists>pre p post. xs = pre @ p # post \<and> py_min xs key = Inr p
           \<and> (\<forall>q \<in> set pre. f p < f q) \<and> (\<forall>q \<in> set post. f p \<le> f q)"
proof -
  from assms(1) obtain b rest where xs: "xs = b # rest" by (cases xs) auto
  with assms(2) have "key b = Inr (f b)" "\<forall>x \<in> set rest. key x = Inr (f x)" by simp_all
  with min_loop_first_minimum [of rest key f b] xs show ?thesis
    by (simp add: py_min_def)
qed


lemma min_loop_keys_returned:
  "min_loop key best kb xs = Inr p \<Longrightarrow> \<forall>x \<in> set xs. \<exists>k. key x = Inr k"
proof (induction xs arbitrary: best kb)
  case Nil
  show ?case by simp
next
  case (Cons x xs)
  show ?case
  proof (cases "key x")
    case (Inl e)
    with Cons.prems show ?thesis by simp
  next
    case (Inr kx)
    with Cons.prems have "min_loop key x kx xs = Inr p \<or> min_loop key best kb xs = Inr p"
      by (simp split: if_splits)
    then have "\<forall>y \<in> set xs. \<exists>k. key y = Inr k" using Cons.IH by blast
    with Inr show ?thesis by simp
  qed
qed

lemma min_loop_error:
  "min_loop key best kb xs = Inl e \<Longrightarrow> \<exists>x \<in> set xs. key x = Inl e"
proof (induction xs arbitrary: best kb)
  case Nil
  then show ?case by simp
next
  case (Cons x xs)
  show ?case
  proof (cases "key x")
    case (Inl e')
    with Cons.prems show ?thesis by simp
  next
    case (Inr kx)
    with Cons.prems have "min_loop key x kx xs = Inl e \<or> min_loop key best kb xs = Inl e"
      by (simp split: if_splits)
    then have "\<exists>y \<in> set xs. key y = Inl e" using Cons.IH by blast
    then show ?thesis by simp
  qed
qed

lemma py_min_keys_returned:
  assumes "py_min xs key = Inr p"
  shows "xs \<noteq> []" "\<forall>x \<in> set xs. \<exists>k. key x = Inr k"
proof -
  from assms show ne: "xs \<noteq> []" by (auto simp: py_min_def)
  then obtain b rest where xs: "xs = b # rest" by (cases xs) auto
  show "\<forall>x \<in> set xs. \<exists>k. key x = Inr k"
  proof (cases "key b")
    case (Inl e)
    with assms xs show ?thesis by (simp add: py_min_def)
  next
    case (Inr kb)
    with assms xs have "min_loop key b kb rest = Inr p" by (simp add: py_min_def)
    from min_loop_keys_returned [OF this] Inr xs show ?thesis by simp
  qed
qed

lemma py_min_error:
  assumes "py_min xs key = Inl e"
  shows "(xs = [] \<and> e = ValueError ''min() arg is an empty sequence'')
         \<or> (\<exists>x \<in> set xs. key x = Inl e)"
proof (cases xs)
  case Nil
  with assms show ?thesis by (simp add: py_min_def)
next
  case (Cons b rest)
  show ?thesis
  proof (cases "key b")
    case (Inl e')
    with assms Cons show ?thesis by (simp add: py_min_def)
  next
    case (Inr kb)
    with assms Cons have "min_loop key b kb rest = Inl e" by (simp add: py_min_def)
    from min_loop_error [OF this] Cons show ?thesis by auto
  qed
qed

lemma py_min_returns:
  assumes "xs \<noteq> []" "\<forall>x \<in> set xs. \<exists>k. key x = Inr k"
  shows "\<exists>p. py_min xs key = Inr p"
proof -
  define f where "f x = (case key x of Inr k \<Rightarrow> k | Inl e \<Rightarrow> 0)" for x
  have "\<forall>x \<in> set xs. key x = Inr (f x)" using assms(2) by (auto simp: f_def)
  from py_min_first_minimum [OF assms(1) this] show ?thesis by blast
qed

lemma py_min_selects:
  assumes "py_min xs key = Inr p"
  shows "\<exists>pre post kp. xs = pre @ p # post \<and> key p = Inr kp
           \<and> (\<forall>q \<in> set pre. \<exists>kq. key q = Inr kq \<and> kp < kq)
           \<and> (\<forall>q \<in> set post. \<exists>kq. key q = Inr kq \<and> kp \<le> kq)"
proof -
  define f where "f x = (case key x of Inr k \<Rightarrow> k | Inl e \<Rightarrow> 0)" for x
  from py_min_keys_returned [OF assms] have ne: "xs \<noteq> []"
    and kf: "\<forall>x \<in> set xs. key x = Inr (f x)" by (auto simp: f_def)
  from py_min_first_minimum [OF ne kf] assms obtain pre post where
    d: "xs = pre @ p # post" and lt: "\<forall>q \<in> set pre. f p < f q"
    and le: "\<forall>q \<in> set post. f p \<le> f q" by auto
  have 1: "key p = Inr (f p)" using kf d by simp
  have 2: "\<forall>q \<in> set pre. \<exists>kq. key q = Inr kq \<and> f p < kq" using kf d lt by simp
  have 3: "\<forall>q \<in> set post. \<exists>kq. key q = Inr kq \<and> f p \<le> kq" using kf d le by simp
  from d 1 2 3 show ?thesis by blast
qed


lemma in_filter_decomp:
  assumes "filter P xs = pre @ p # post"
  shows "p \<in> set xs" "P p"
proof -
  have "p \<in> set (filter P xs)" by (simp add: assms)
  then show "p \<in> set xs" "P p" by simp_all
qed

lemma py_min_member:
  assumes "py_min (filter P xs) key = Inr p"
  shows "p \<in> set xs" "P p"
proof -
  from py_min_selects [OF assms] obtain pre post where "filter P xs = pre @ p # post" by blast
  from in_filter_decomp [OF this] show "p \<in> set xs" "P p" by simp_all
qed

lemma assign_provider_body_success:
  assumes g: "get_request d rid = Inr req" and st: "status req = PENDING"
    and m: "py_min (filter is_available (providers d)) (distance_to fp req) = Inr p"
    and na: "\<forall>a \<in> set (assignments d). sa_request a \<noteq> rid"
  shows "assign_provider_body fp rid d =
               Inr (\<lparr>sa_request = rid, sa_provider = p_id p\<rparr>,
                    d\<lparr>providers := map (\<lambda>q. if p_id q = p_id p then q\<lparr>is_available := False\<rparr> else q)
                                     (providers d),
                      requests := map (\<lambda>r. if r_id r = rid then r\<lparr>status := DISPATCHED\<rparr> else r)
                                    (requests d),
                      assignments := assignments d @ [\<lparr>sa_request = rid, sa_provider = p_id p\<rparr>]\<rparr>,
                    [NotifyDelay rid])"
proof -
  have av: "filter is_available (providers d) \<noteq> []" using py_min_keys_returned(1) [OF m] .
  have pa: "is_available p" using py_min_member(2) [OF m] .
  have id: "r_id req = rid" using get_request_row(1) [OF g] .
  show ?thesis
    using g st av m pa id na
    by (simp add: assign_provider_body_def Let_def create_assignment_def save_is_available_def
        save_status_def)
qed

lemma assign_provider_body_not_found:
  "get_request d rid = Inl e \<Longrightarrow> assign_provider_body fp rid d = Inl e"
  by (simp add: assign_provider_body_def)

lemma assign_provider_body_invalid_state:
  "get_request d rid = Inr req \<Longrightarrow> status req \<noteq> PENDING \<Longrightarrow>
   assign_provider_body fp rid d = Inl (ValueError ''Only pending requests can be dispatched'')"
  by (simp add: assign_provider_body_def)

lemma assign_provider_body_no_providers:
  "get_request d rid = Inr req \<Longrightarrow> status req = PENDING \<Longrightarrow>
   filter is_available (providers d) = [] \<Longrightarrow>
   assign_provider_body fp rid d = Inl (ValueError ''No available providers to assign'')"
  by (simp add: assign_provider_body_def)

lemma assign_provider_body_distance_error:
  "get_request d rid = Inr req \<Longrightarrow> status req = PENDING \<Longrightarrow>
   filter is_available (providers d) \<noteq> [] \<Longrightarrow>
   py_min (filter is_available (providers d)) (distance_to fp req) = Inl e \<Longrightarrow>
   assign_provider_body fp rid d = Inl e"
  by (simp add: assign_provider_body_def)

lemma assign_provider_body_integrity:
  assumes g: "get_request d rid = Inr req" and st: "status req = PENDING"
    and m: "py_min (filter is_available (providers d)) (distance_to fp req) = Inr p"
    and na: "\<exists>a \<in> set (assignments d). sa_request a = rid"
  shows "assign_provider_body fp rid d = Inl IntegrityError"
proof -
  have av: "filter is_available (providers d) \<noteq> []" using py_min_keys_returned(1) [OF m] .
  have pa: "is_available p" using py_min_member(2) [OF m] .
  have id: "r_id req = rid" using get_request_row(1) [OF g] .
  show ?thesis
    using g st av m pa id na
    by (simp add: assign_provider_body_def Let_def create_assignment_def save_is_available_def)
qed

lemma atomic_Inl: "body (db w) = Inl e \<Longrightarrow> atomic body w = (Inl e, w)"
  by (simp add: atomic_def)

lemma atomic_Inr:
  "body (db w) = Inr (res, d', hooks) \<Longrightarrow>
   atomic body w = (Inr res, fold run_hook hooks (commit d' w))"
  by (simp add: atomic_def)

lemma atomic_failure_unchanged: "fst (atomic body w) = Inl e \<Longrightarrow> snd (atomic body w) = w"
  by (auto simp: atomic_def split: sum.splits prod.splits)

lemma get_request_errors:
  "get_request d rid = Inl e \<Longrightarrow> e = DoesNotExist \<or> e = MultipleObjectsReturned"
  by (auto simp: get_request_def split: list.splits)

text \<open>
  The exceptions of \<open>min\<close> in dispatch: the candidates are not empty there, so it can
  only pass on the domain error of the distance function.
\<close>

lemma dispatch_min_error:
  assumes "cands \<noteq> []" "py_min cands (distance_to fp req) = Inl e"
  shows "e = ValueError ''math domain error''"
proof -
  from py_min_error [OF assms(2)] assms(1) obtain q where
    "distance_to fp req q = Inl e" by blast
  then show ?thesis by (rule haversine_distance_error)
qed

lemma assign_provider_body_never_busy:
  "assign_provider_body fp rid d \<noteq> Inl (PyException ''Provider is busy!'')"
proof (cases "get_request d rid")
  case (Inl e)
  with get_request_errors [OF Inl] show ?thesis
    by (auto simp: assign_provider_body_not_found)
next
  case (Inr req)
  show ?thesis
  proof (cases "status req = PENDING")
    case False
    with Inr show ?thesis by (simp add: assign_provider_body_invalid_state)
  next
    case True
    show ?thesis
    proof (cases "filter is_available (providers d) = []")
      case True
      with Inr \<open>status req = PENDING\<close> show ?thesis
        by (simp add: assign_provider_body_no_providers)
    next
      case False
      show ?thesis
      proof (cases "py_min (filter is_available (providers d)) (distance_to fp req)")
        case (Inl e)
        from dispatch_min_error [OF False Inl]
          assign_provider_body_distance_error [OF Inr \<open>status req = PENDING\<close> False Inl]
        show ?thesis by simp
      next
        case m: (Inr p)
        show ?thesis
        proof (cases "\<exists>a \<in> set (assignments d). sa_request a = rid")
          case True
          from assign_provider_body_integrity [OF Inr \<open>status req = PENDING\<close> m True]
          show ?thesis by simp
        next
          case na: False
          then have "\<forall>a \<in> set (assignments d). sa_request a \<noteq> rid" by simp
          from assign_provider_body_success [OF Inr \<open>status req = PENDING\<close> m this]
          show ?thesis by simp
        qed
      qed
    qed
  qed
qed

text \<open>
  C8. After selecting the provider, \<open>assign_provider_body\<close> checks its availability flag
  again and raises \<open>Exception("Provider is busy!")\<close> when it is false. No call of
  dispatch, on any state, any request id and in any arithmetic, ends with that
  exception: the provider comes out of the list filtered by \<open>is_available\<close> in the same
  transaction.
\<close>

theorem provider_busy_unreachable:
  "fst (assign_provider_atomic fp rid w) \<noteq> Inl (PyException ''Provider is busy!'')"
proof (cases "assign_provider_body fp rid (db w)")
  case (Inl e)
  with assign_provider_body_never_busy [of fp rid "db w"] show ?thesis
    by (simp add: assign_provider_atomic_def atomic_def)
next
  case (Inr x)
  then show ?thesis
    by (simp add: assign_provider_atomic_def atomic_def split: prod.splits)
qed

lemma filter_status_update:
  "filter (\<lambda>r. r_id r = rid) (map (\<lambda>r. if r_id r = rid then r\<lparr>status := s\<rparr> else r) rs)
   = map (\<lambda>r. r\<lparr>status := s\<rparr>) (filter (\<lambda>r. r_id r = rid) rs)"
  by (induction rs) auto


text \<open>
  The distances of the examples on doubles: half the circumference is
  \<open>6371 * math.pi\<close>, the double 20015.086796020572.
\<close>

lemma sample_distances:
  "haversine_distance binary64_sample 0 0 0 0 = Inr 0"
  "haversine_distance binary64_sample 0 0 0 180 = Inr (2750852582896313 / 2 ^ 37)"
  by (simp_all add: haversine_distance_def binary64_sample_def math_sqrt_def Let_def
      radians_def atan2_def)




text \<open>
  Where a distance is not computed, dispatch raises the domain error: in
  \<open>antipode_world\<close> the PENDING request 1 and the available provider 7 are at opposite
  points of the globe, and the call ends with ValueError, the world unchanged.
\<close>

lemma dispatch_to_opposite_point:
  "assign_provider_atomic binary64_sample 1 antipode_world
   = (Inl (ValueError ''math domain error''), antipode_world)"
  by (simp add: antipode_world_def mk_provider_def mk_request_def
      assign_provider_atomic_def atomic_def assign_provider_body_def get_request_def py_min_def
      haversine_distance_def binary64_sample_def math_sqrt_def Let_def)

lemma assign_provider_body_Inr_cases:
  assumes "assign_provider_body fp rid d = Inr x"
  shows "\<exists>req p. get_request d rid = Inr req \<and> status req = PENDING
           \<and> py_min (filter is_available (providers d)) (distance_to fp req) = Inr p
           \<and> (\<forall>a \<in> set (assignments d). sa_request a \<noteq> rid)"
proof (cases "get_request d rid")
  case (Inl e)
  with assms show ?thesis by (simp add: assign_provider_body_not_found)
next
  case (Inr req)
  have st: "status req = PENDING"
    using assms assign_provider_body_invalid_state [OF Inr] by (cases "status req = PENDING") auto
  have av: "filter is_available (providers d) \<noteq> []"
    using assms assign_provider_body_no_providers [OF Inr st] by auto
  obtain p where m: "py_min (filter is_available (providers d)) (distance_to fp req) = Inr p"
    using assms assign_provider_body_distance_error [OF Inr st av]
    by (cases "py_min (filter is_available (providers d)) (distance_to fp req)") auto
  have na: "\<forall>a \<in> set (assignments d). sa_request a \<noteq> rid"
    using assms assign_provider_body_integrity [OF Inr st m] by auto
  from Inr st m na show ?thesis by blast
qed






text \<open>
  The choice between providers 7 and 2 in \<open>tie_world\<close> does not depend on the arithmetic:
  the two rows hold the same coordinates, so their computed distances are the same in
  every arithmetic, and no dispatch of request 1 selects provider 2.
\<close>

lemma tie_world_never_lowest_identity:
  "fst (assign_provider_atomic fp 1 tie_world) \<noteq> Inr \<lparr>sa_request = 1, sa_provider = 2\<rparr>"
proof (cases "haversine_distance fp 0 0 0 180")
  case (Inl e)
  then show ?thesis
    by (simp add: tie_world_def mk_provider_def mk_request_def assign_provider_atomic_def
        atomic_def assign_provider_body_def get_request_def py_min_def)
next
  case far: (Inr k5)
  show ?thesis
  proof (cases "haversine_distance fp 0 0 0 0")
    case (Inl e)
    with far show ?thesis
      by (simp add: tie_world_def mk_provider_def mk_request_def assign_provider_atomic_def
          atomic_def assign_provider_body_def get_request_def py_min_def)
  next
    case (Inr k7)
    with far show ?thesis
      by (simp add: tie_world_def mk_provider_def mk_request_def assign_provider_atomic_def
          atomic_def assign_provider_body_def get_request_def py_min_def create_assignment_def
          save_is_available_def save_status_def Let_def commit_def)
  qed
qed

section \<open>Completion and cancellation\<close>

lemma get_request_status_update:
  assumes "requests d' = map (\<lambda>r. if r_id r = rid then r\<lparr>status := s\<rparr> else r) (requests d)"
    and "get_request d rid = Inr req"
  shows "get_request d' rid = Inr (req\<lparr>status := s\<rparr>)"
  using assms by (simp add: get_request_Inr_iff filter_status_update)

lemma filter_status_update_other:
  "rid' \<noteq> rid \<Longrightarrow>
   filter (\<lambda>r. r_id r = rid') (map (\<lambda>r. if r_id r = rid then r\<lparr>status := s\<rparr> else r) rs)
   = filter (\<lambda>r. r_id r = rid') rs"
  by (induction rs) auto

lemma get_request_status_update_other:
  assumes "requests d' = map (\<lambda>r. if r_id r = rid then r\<lparr>status := s\<rparr> else r) (requests d)"
    and "rid' \<noteq> rid"
  shows "get_request d' rid' = get_request d rid'"
  using assms by (simp add: get_request_def filter_status_update_other)

lemma provider_of_id: "provider_of d a = Inr p \<Longrightarrow> p_id p = sa_provider a \<and> p \<in> set (providers d)"
  by (auto simp: provider_of_def find_Some_iff split: option.splits)

lemma complete_body_not_found:
  "locks_outer_join d \<Longrightarrow> get_request d rid = Inl e \<Longrightarrow> complete_body rid d = Inl e"
  by (simp add: complete_body_def get_request_with_assignment_def)

lemma complete_body_invalid_state:
  "locks_outer_join d \<Longrightarrow> get_request d rid = Inr req \<Longrightarrow> status req \<noteq> DISPATCHED \<Longrightarrow>
   complete_body rid d = Inl (ValueError ''Only dispatched requests can be completed'')"
  by (simp add: complete_body_def get_request_with_assignment_def)

lemma complete_body_no_assignment:
  "locks_outer_join d \<Longrightarrow> get_request d rid = Inr req \<Longrightarrow> status req = DISPATCHED \<Longrightarrow> assignment_of d req = None \<Longrightarrow>
   complete_body rid d = Inl (ValueError ''Request has no assignment'')"
  by (simp add: complete_body_def get_request_with_assignment_def)

lemma complete_body_no_provider:
  "locks_outer_join d \<Longrightarrow> get_request d rid = Inr req \<Longrightarrow> status req = DISPATCHED \<Longrightarrow> assignment_of d req = Some a \<Longrightarrow>
   provider_of d a = Inl e \<Longrightarrow> complete_body rid d = Inl e"
  by (simp add: complete_body_def get_request_with_assignment_def)

lemma complete_body_success:
  assumes l: "locks_outer_join d" and g: "get_request d rid = Inr req"
    and st: "status req = DISPATCHED" and a: "assignment_of d req = Some a"
    and p: "provider_of d a = Inr p"
  shows "complete_body rid d =
     Inr ((), d\<lparr>providers := map (\<lambda>q. if p_id q = sa_provider a then q\<lparr>is_available := True\<rparr> else q)
                                (providers d),
                 requests := map (\<lambda>r. if r_id r = rid then r\<lparr>status := COMPLETED\<rparr> else r)
                               (requests d)\<rparr>, [])"
  using assms provider_of_id [OF p] get_request_row(1) [OF g]
  by (simp add: complete_body_def get_request_with_assignment_def save_is_available_def
      save_status_def)

lemma cancel_body_not_found:
  "locks_outer_join d \<Longrightarrow> get_request d rid = Inl e \<Longrightarrow> cancel_body rid d = Inl e"
  by (simp add: cancel_body_def get_request_with_assignment_def)

lemma cancel_body_completed:
  "locks_outer_join d \<Longrightarrow> get_request d rid = Inr req \<Longrightarrow> status req = COMPLETED \<Longrightarrow>
   cancel_body rid d = Inl (ValueError ''Completed request cannot be cancelled'')"
  by (simp add: cancel_body_def get_request_with_assignment_def)

lemma cancel_body_cancelled:
  "locks_outer_join d \<Longrightarrow> get_request d rid = Inr req \<Longrightarrow> status req = CANCELLED \<Longrightarrow>
   cancel_body rid d = Inr ((), d, [])"
  by (simp add: cancel_body_def get_request_with_assignment_def)

lemma cancel_body_pending:
  assumes l: "locks_outer_join d" and g: "get_request d rid = Inr req"
    and st: "status req = PENDING"
  shows "cancel_body rid d =
     Inr ((), d\<lparr>requests := map (\<lambda>r. if r_id r = rid then r\<lparr>status := CANCELLED\<rparr> else r)
                               (requests d)\<rparr>, [])"
  using assms get_request_row(1) [OF g]
  by (simp add: cancel_body_def get_request_with_assignment_def save_status_def)

lemma cancel_body_unassigned:
  assumes l: "locks_outer_join d" and g: "get_request d rid = Inr req"
    and st: "status req = DISPATCHED" and a: "assignment_of d req = None"
  shows "cancel_body rid d =
     Inr ((), d\<lparr>requests := map (\<lambda>r. if r_id r = rid then r\<lparr>status := CANCELLED\<rparr> else r)
                               (requests d)\<rparr>, [])"
  using assms get_request_row(1) [OF g]
  by (simp add: cancel_body_def get_request_with_assignment_def save_status_def)

lemma cancel_body_no_provider:
  "locks_outer_join d \<Longrightarrow> get_request d rid = Inr req \<Longrightarrow> status req = DISPATCHED \<Longrightarrow> assignment_of d req = Some a \<Longrightarrow>
   provider_of d a = Inl e \<Longrightarrow> cancel_body rid d = Inl e"
  by (simp add: cancel_body_def get_request_with_assignment_def)

lemma cancel_body_dispatched:
  assumes l: "locks_outer_join d" and g: "get_request d rid = Inr req"
    and st: "status req = DISPATCHED" and a: "assignment_of d req = Some a"
    and p: "provider_of d a = Inr p"
  shows "cancel_body rid d =
     Inr ((), d\<lparr>providers := map (\<lambda>q. if p_id q = sa_provider a then q\<lparr>is_available := True\<rparr> else q)
                                (providers d),
                 requests := map (\<lambda>r. if r_id r = rid then r\<lparr>status := CANCELLED\<rparr> else r)
                               (requests d)\<rparr>, [])"
  using assms provider_of_id [OF p] get_request_row(1) [OF g]
  by (simp add: cancel_body_def get_request_with_assignment_def save_is_available_def
      save_status_def)

lemma atomic_no_hooks:
  "body (db w) = Inr (res, d', []) \<Longrightarrow> atomic body w = (Inr res, w\<lparr>db := d'\<rparr>)"
  by (simp add: atomic_def commit_def)

text \<open>
  On a server that refuses the locking join, \<open>complete_request\<close> and \<open>cancel_request\<close>
  end at their first statement, whatever the request id and the state: the call raises
  NotSupportedError and the transaction writes nothing.
\<close>

lemma locking_join_refused:
  assumes "\<not> locks_outer_join (db w)"
  shows "complete_request rid w = (Inl NotSupportedError, w)"
    and "cancel_request rid w = (Inl NotSupportedError, w)"
  using assms
  by (simp_all add: complete_request_def cancel_request_def atomic_def complete_body_def
      cancel_body_def get_request_with_assignment_def)

lemma locking_join_needed:
  "complete_body rid d = Inr x \<Longrightarrow> locks_outer_join d"
  "cancel_body rid d = Inr y \<Longrightarrow> locks_outer_join d"
  by (cases "locks_outer_join d";
      simp add: complete_body_def cancel_body_def get_request_with_assignment_def)+

text \<open>
  Where the server accepts the locking join: cancel of a request whose status is
  DISPATCHED but which no assignment row points at succeeds; it raises nothing, sets the
  status to CANCELLED and leaves the provider table as it was. Complete of the same
  request in the same state raises ValueError ("Request has no assignment") and
  changes nothing.
\<close>

lemma cancel_without_assignment_accepted:
  assumes l: "locks_outer_join (db w)"
    and g: "get_request (db w) rid = Inr req" and st: "status req = DISPATCHED"
    and na: "assignment_of (db w) req = None"
  shows "cancel_request rid w
           = (Inr (), w\<lparr>db := (db w)\<lparr>requests :=
                 map (\<lambda>r. if r_id r = rid then r\<lparr>status := CANCELLED\<rparr> else r) (requests (db w))\<rparr>\<rparr>)
         \<and> get_request (db (snd (cancel_request rid w))) rid = Inr (req\<lparr>status := CANCELLED\<rparr>)
         \<and> providers (db (snd (cancel_request rid w))) = providers (db w)
         \<and> complete_request rid w = (Inl (ValueError ''Request has no assignment''), w)"
proof -
  have c: "cancel_request rid w
           = (Inr (), w\<lparr>db := (db w)\<lparr>requests :=
                 map (\<lambda>r. if r_id r = rid then r\<lparr>status := CANCELLED\<rparr> else r) (requests (db w))\<rparr>\<rparr>)"
    unfolding cancel_request_def
    by (rule atomic_no_hooks) (rule cancel_body_unassigned [OF l g st na])
  have "get_request (db (snd (cancel_request rid w))) rid = Inr (req\<lparr>status := CANCELLED\<rparr>)"
    unfolding c by (rule get_request_status_update [OF _ g]) simp
  moreover have "complete_request rid w = (Inl (ValueError ''Request has no assignment''), w)"
    unfolding complete_request_def
    by (rule atomic_Inl) (rule complete_body_no_assignment [OF l g st na])
  ultimately show ?thesis unfolding c by simp
qed

text \<open>
  C10 fails on PostgreSQL. Request 5 of \<open>postgres_world\<close> is DISPATCHED and no
  assignment row points at it. Cancel of request 5 does not succeed and complete of
  request 5 does not raise ValueError ("Request has no assignment"): both calls raise
  NotSupportedError at the query that locks the request joined to its assignment, and
  the request stays DISPATCHED.
\<close>

theorem unassigned_request_refused_on_postgres:
  "get_request (db postgres_world) 5 = Inr (mk_request 5 0 0 DISPATCHED)
   \<and> assignment_of (db postgres_world) (mk_request 5 0 0 DISPATCHED) = None
   \<and> cancel_request 5 postgres_world = (Inl NotSupportedError, postgres_world)
   \<and> complete_request 5 postgres_world = (Inl NotSupportedError, postgres_world)"
  by (simp add: postgres_world_def served_world_def mk_request_def get_request_def
      assignment_of_def cancel_request_def complete_request_def atomic_def cancel_body_def
      complete_body_def get_request_with_assignment_def)

lemma released_is_candidate:
  assumes "provider_of d a = Inr p"
    and "providers d' = map (\<lambda>q. if p_id q = sa_provider a then q\<lparr>is_available := True\<rparr> else q)
                           (providers d)"
  shows "p\<lparr>is_available := True\<rparr> \<in> set (filter is_available (providers d'))"
proof -
  let ?f = "\<lambda>q. if p_id q = sa_provider a then q\<lparr>is_available := True\<rparr> else q"
  from provider_of_id [OF assms(1)] have i: "p_id p = sa_provider a" and m: "p \<in> set (providers d)"
    by simp_all
  from m have "?f p \<in> ?f ` set (providers d)" by (rule imageI)
  moreover have "?f p = p\<lparr>is_available := True\<rparr>" using i by simp
  ultimately have "p\<lparr>is_available := True\<rparr> \<in> set (providers d')"
    unfolding assms(2) by simp
  then show ?thesis by simp
qed

lemma release_map_available:
  assumes "q \<in> set (map (\<lambda>q. if p_id q = pid then q\<lparr>is_available := True\<rparr> else q) ps)"
    and "p_id q = pid"
  shows "is_available q"
proof -
  let ?f = "\<lambda>q. if p_id q = pid then q\<lparr>is_available := True\<rparr> else q"
  from assms(1) have "q \<in> ?f ` set ps" by (simp only: set_map)
  then obtain x where x: "q = ?f x" by (rule imageE)
  show ?thesis
  proof (cases "p_id x = pid")
    case True
    with x show ?thesis by simp
  next
    case False
    with x have "q = x" by simp
    with False assms(2) show ?thesis by simp
  qed
qed

lemma released_all_available:
  assumes "providers d' = map (\<lambda>q. if p_id q = pid then q\<lparr>is_available := True\<rparr> else q)
                           (providers d)"
  shows "\<forall>q \<in> set (providers d'). p_id q = pid \<longrightarrow> is_available q"
  unfolding assms by (blast intro: release_map_available)

lemma dispatch_after_release:
  assumes c: "c \<in> set (filter is_available (providers (db w')))"
    and g: "get_request (db w') rid2 = Inr req2" and st: "status req2 = PENDING"
    and na: "assignment_of (db w') req2 = None"
    and ks: "\<forall>q \<in> set (providers (db w')). is_available q \<longrightarrow>
               (\<exists>dq. distance_to fp req2 q = Inr dq)"
  shows "\<exists>q \<in> set (filter is_available (providers (db w'))).
           fst (assign_provider_atomic fp rid2 w') = Inr \<lparr>sa_request = rid2, sa_provider = p_id q\<rparr>"
proof -
  have av: "filter is_available (providers (db w')) \<noteq> []"
  proof
    assume "filter is_available (providers (db w')) = []"
    with c show False by simp
  qed
  from ks have ks': "\<forall>q \<in> set (filter is_available (providers (db w'))).
      \<exists>dq. distance_to fp req2 q = Inr dq" by simp
  from py_min_returns [OF av ks'] obtain q where
    m: "py_min (filter is_available (providers (db w'))) (distance_to fp req2) = Inr q" ..
  have "r_id req2 = rid2" by (rule get_request_row(1) [OF g])
  with na have na': "\<forall>a \<in> set (assignments (db w')). sa_request a \<noteq> rid2"
    by (simp add: assignment_of_def find_None_iff)
  note b = assign_provider_body_success [OF g st m na']
  have r: "fst (assign_provider_atomic fp rid2 w') = Inr \<lparr>sa_request = rid2, sa_provider = p_id q\<rparr>"
    unfolding assign_provider_atomic_def
    using atomic_Inr [of "assign_provider_body fp rid2" w', OF b] by simp
  have "q \<in> set (filter is_available (providers (db w')))"
    using py_min_member [OF m] by simp
  from this r show ?thesis by (rule bexI [rotated])
qed

text \<open>
  Where the server accepts the locking join: complete of an existing request raises
  ValueError ("Only dispatched requests can be completed") unless the status is
  DISPATCHED, and ValueError ("Request has no assignment") when no assignment row points
  at the request; both leave the world unchanged. Otherwise (the provider row the
  assignment points at exists, as the foreign key guarantees) it returns, the rows of
  the linked provider are available again, the request is COMPLETED, and nothing else
  changes. The released provider is then among the candidates of dispatch, and a
  following dispatch of a PENDING request without an assignment, whose distance to
  every candidate is computed, succeeds with one of those candidates.
\<close>

lemma complete_contract_accepted:
  fixes w rid w' p
  defines "w' \<equiv> snd (complete_request rid w)"
  assumes l: "locks_outer_join (db w)" and g: "get_request (db w) rid = Inr req"
  shows "(status req \<noteq> DISPATCHED \<longrightarrow>
            complete_request rid w
              = (Inl (ValueError ''Only dispatched requests can be completed''), w))
       \<and> (status req = DISPATCHED \<and> assignment_of (db w) req = None \<longrightarrow>
            complete_request rid w = (Inl (ValueError ''Request has no assignment''), w))
       \<and> (status req = DISPATCHED \<and> assignment_of (db w) req = Some a
            \<and> provider_of (db w) a = Inr p \<longrightarrow>
            fst (complete_request rid w) = Inr ()
            \<and> task_queue w' = task_queue w \<and> assignments (db w') = assignments (db w)
            \<and> providers (db w')
                = map (\<lambda>q. if p_id q = sa_provider a then q\<lparr>is_available := True\<rparr> else q)
                    (providers (db w))
            \<and> (\<forall>q \<in> set (providers (db w')). p_id q = sa_provider a \<longrightarrow> is_available q)
            \<and> requests (db w')
                = map (\<lambda>r. if r_id r = rid then r\<lparr>status := COMPLETED\<rparr> else r)
                    (requests (db w))
            \<and> get_request (db w') rid = Inr (req\<lparr>status := COMPLETED\<rparr>)
            \<and> p\<lparr>is_available := True\<rparr> \<in> set (filter is_available (providers (db w')))
            \<and> (\<forall>rid2 req2. get_request (db w') rid2 = Inr req2 \<and> status req2 = PENDING
                  \<and> assignment_of (db w') req2 = None
                  \<and> (\<forall>q \<in> set (providers (db w')). is_available q \<longrightarrow>
                        (\<exists>dq. distance_to fp req2 q = Inr dq)) \<longrightarrow>
                  (\<exists>q \<in> set (filter is_available (providers (db w'))).
                     fst (assign_provider_atomic fp rid2 w')
                       = Inr \<lparr>sa_request = rid2, sa_provider = p_id q\<rparr>)))"
proof (intro conjI impI)
  assume "status req \<noteq> DISPATCHED"
  then show "complete_request rid w
              = (Inl (ValueError ''Only dispatched requests can be completed''), w)"
    unfolding complete_request_def
    by (intro atomic_Inl complete_body_invalid_state [OF l g])
next
  assume "status req = DISPATCHED \<and> assignment_of (db w) req = None"
  then show "complete_request rid w = (Inl (ValueError ''Request has no assignment''), w)"
    unfolding complete_request_def
    by (intro atomic_Inl complete_body_no_assignment [OF l g]) simp_all
next
  assume h: "status req = DISPATCHED \<and> assignment_of (db w) req = Some a
            \<and> provider_of (db w) a = Inr p"
  then have st: "status req = DISPATCHED" and a: "assignment_of (db w) req = Some a"
    and p: "provider_of (db w) a = Inr p" by simp_all
  have c: "complete_request rid w
       = (Inr (), w\<lparr>db := (db w)\<lparr>providers :=
               map (\<lambda>q. if p_id q = sa_provider a then q\<lparr>is_available := True\<rparr> else q)
                 (providers (db w)),
             requests := map (\<lambda>r. if r_id r = rid then r\<lparr>status := COMPLETED\<rparr> else r)
                 (requests (db w))\<rparr>\<rparr>)"
    unfolding complete_request_def
    by (rule atomic_no_hooks) (rule complete_body_success [OF l g st a p])
  show "fst (complete_request rid w) = Inr ()" by (simp add: c)
  show "task_queue w' = task_queue w" by (simp add: w'_def c)
  show "assignments (db w') = assignments (db w)" by (simp add: w'_def c)
  show pr: "providers (db w')
                = map (\<lambda>q. if p_id q = sa_provider a then q\<lparr>is_available := True\<rparr> else q)
                    (providers (db w))" by (simp add: w'_def c)
  show "\<forall>q \<in> set (providers (db w')). p_id q = sa_provider a \<longrightarrow> is_available q"
    by (rule released_all_available [OF pr])
  show rq: "requests (db w')
                = map (\<lambda>r. if r_id r = rid then r\<lparr>status := COMPLETED\<rparr> else r)
                    (requests (db w))" by (simp add: w'_def c)
  show "get_request (db w') rid = Inr (req\<lparr>status := COMPLETED\<rparr>)"
    by (rule get_request_status_update [OF rq g])
  show cand: "p\<lparr>is_available := True\<rparr> \<in> set (filter is_available (providers (db w')))"
    by (rule released_is_candidate [OF p pr])
  show "\<forall>rid2 req2. get_request (db w') rid2 = Inr req2 \<and> status req2 = PENDING
                  \<and> assignment_of (db w') req2 = None
                  \<and> (\<forall>q \<in> set (providers (db w')). is_available q \<longrightarrow>
                        (\<exists>dq. distance_to fp req2 q = Inr dq)) \<longrightarrow>
                  (\<exists>q \<in> set (filter is_available (providers (db w'))).
                     fst (assign_provider_atomic fp rid2 w')
                       = Inr \<lparr>sa_request = rid2, sa_provider = p_id q\<rparr>)"
  proof (intro allI impI)
    fix rid2 req2
    assume h2: "get_request (db w') rid2 = Inr req2 \<and> status req2 = PENDING
                  \<and> assignment_of (db w') req2 = None
                  \<and> (\<forall>q \<in> set (providers (db w')). is_available q \<longrightarrow>
                        (\<exists>dq. distance_to fp req2 q = Inr dq))"
    then have g2: "get_request (db w') rid2 = Inr req2" and st2: "status req2 = PENDING"
      and na2: "assignment_of (db w') req2 = None"
      and ks2: "\<forall>q \<in> set (providers (db w')). is_available q \<longrightarrow>
                        (\<exists>dq. distance_to fp req2 q = Inr dq)" by simp_all
    show "\<exists>q \<in> set (filter is_available (providers (db w'))).
                     fst (assign_provider_atomic fp rid2 w')
                       = Inr \<lparr>sa_request = rid2, sa_provider = p_id q\<rparr>"
      by (rule dispatch_after_release [OF cand g2 st2 na2 ks2])
  qed
qed


text \<open>
  C6 fails on PostgreSQL. Request 1 of \<open>postgres_world\<close> is DISPATCHED and assigned to
  provider 7. Complete of request 1 raises NotSupportedError at the query that locks the
  request joined to its assignment: the request is not COMPLETED, provider 7 stays
  unavailable, and no provider is a candidate for a later dispatch.
\<close>

theorem complete_refused_on_postgres:
  "get_request (db postgres_world) 1 = Inr (mk_request 1 0 0 DISPATCHED)
   \<and> assignment_of (db postgres_world) (mk_request 1 0 0 DISPATCHED)
       = Some \<lparr>sa_request = 1, sa_provider = 7\<rparr>
   \<and> provider_of (db postgres_world) \<lparr>sa_request = 1, sa_provider = 7\<rparr>
       = Inr (mk_provider 7 0 0 False)
   \<and> complete_request 1 postgres_world = (Inl NotSupportedError, postgres_world)
   \<and> get_request (db (snd (complete_request 1 postgres_world))) 1
       = Inr (mk_request 1 0 0 DISPATCHED)
   \<and> filter is_available (providers (db (snd (complete_request 1 postgres_world)))) = []"
  by (simp add: postgres_world_def served_world_def mk_request_def mk_provider_def
      get_request_def assignment_of_def provider_of_def complete_request_def atomic_def
      complete_body_def get_request_with_assignment_def)

lemma cancel_request_success_state:
  assumes l: "locks_outer_join (db w)"
    and g: "get_request (db w) rid = Inr req" and s: "fst (cancel_request rid w) = Inr u"
  shows "get_request (db (snd (cancel_request rid w))) rid = Inr (req\<lparr>status := CANCELLED\<rparr>)"
proof (cases "status req")
  case PENDING
  have "cancel_request rid w = (Inr (), w\<lparr>db := (db w)\<lparr>requests :=
          map (\<lambda>r. if r_id r = rid then r\<lparr>status := CANCELLED\<rparr> else r) (requests (db w))\<rparr>\<rparr>)"
    unfolding cancel_request_def
    by (rule atomic_no_hooks) (rule cancel_body_pending [OF l g PENDING])
  then show ?thesis using get_request_status_update [OF _ g, of _ CANCELLED] by simp
next
  case DISPATCHED
  show ?thesis
  proof (cases "assignment_of (db w) req")
    case None
    have "cancel_request rid w = (Inr (), w\<lparr>db := (db w)\<lparr>requests :=
          map (\<lambda>r. if r_id r = rid then r\<lparr>status := CANCELLED\<rparr> else r) (requests (db w))\<rparr>\<rparr>)"
      unfolding cancel_request_def
      by (rule atomic_no_hooks) (rule cancel_body_unassigned [OF l g DISPATCHED None])
    then show ?thesis using get_request_status_update [OF _ g, of _ CANCELLED] by simp
  next
    case (Some a)
    show ?thesis
    proof (cases "provider_of (db w) a")
      case (Inl e)
      have "cancel_request rid w = (Inl e, w)"
        unfolding cancel_request_def
        by (rule atomic_Inl) (rule cancel_body_no_provider [OF l g DISPATCHED Some Inl])
      with s show ?thesis by simp
    next
      case (Inr p)
      have "cancel_request rid w = (Inr (), w\<lparr>db := (db w)\<lparr>providers :=
               map (\<lambda>q. if p_id q = sa_provider a then q\<lparr>is_available := True\<rparr> else q)
                 (providers (db w)),
             requests := map (\<lambda>r. if r_id r = rid then r\<lparr>status := CANCELLED\<rparr> else r)
                 (requests (db w))\<rparr>\<rparr>)"
        unfolding cancel_request_def
        by (rule atomic_no_hooks) (rule cancel_body_dispatched [OF l g DISPATCHED Some Inr])
      then show ?thesis using get_request_status_update [OF _ g, of _ CANCELLED] by simp
    qed
  qed
next
  case COMPLETED
  have "cancel_request rid w = (Inl (ValueError ''Completed request cannot be cancelled''), w)"
    unfolding cancel_request_def
    by (rule atomic_Inl) (rule cancel_body_completed [OF l g COMPLETED])
  with s show ?thesis by simp
next
  case CANCELLED
  have "cancel_request rid w = (Inr (), w)"
    unfolding cancel_request_def
    using atomic_no_hooks [of "cancel_body rid" w "()" "db w", OF cancel_body_cancelled [OF l g CANCELLED]]
    by simp
  moreover have "req\<lparr>status := CANCELLED\<rparr> = req" using CANCELLED by simp
  ultimately show ?thesis using g by simp
qed


lemma cancel_request_cancelled:
  assumes "locks_outer_join (db w)" "get_request (db w) rid = Inr req" "status req = CANCELLED"
  shows "cancel_request rid w = (Inr (), w)"
  unfolding cancel_request_def
  using atomic_no_hooks [of "cancel_body rid" w "()" "db w", OF cancel_body_cancelled [OF assms]]
  by simp

text \<open>
  Where the server accepts the locking join, cancel of an existing request: raises
  ValueError ("Completed request cannot be cancelled") when the status is COMPLETED; returns without any change when the status
  is already CANCELLED; when the status is DISPATCHED (with its assignment and the
  provider row it points at) makes the rows of the linked provider available and sets
  the status to CANCELLED; when the status is PENDING sets the status to CANCELLED and
  leaves the provider table alone. After any cancel that returned, the status is
  CANCELLED and a second cancel returns again and changes nothing.
\<close>

lemma cancel_contract_accepted:
  fixes w rid w' p
  defines "w' \<equiv> snd (cancel_request rid w)"
  assumes l: "locks_outer_join (db w)" and g: "get_request (db w) rid = Inr req"
  shows "(status req = COMPLETED \<longrightarrow>
            cancel_request rid w
              = (Inl (ValueError ''Completed request cannot be cancelled''), w))
       \<and> (status req = CANCELLED \<longrightarrow> cancel_request rid w = (Inr (), w))
       \<and> (status req = DISPATCHED \<and> assignment_of (db w) req = Some a
            \<and> provider_of (db w) a = Inr p \<longrightarrow>
            fst (cancel_request rid w) = Inr ()
            \<and> task_queue w' = task_queue w \<and> assignments (db w') = assignments (db w)
            \<and> providers (db w')
                = map (\<lambda>q. if p_id q = sa_provider a then q\<lparr>is_available := True\<rparr> else q)
                    (providers (db w))
            \<and> (\<forall>q \<in> set (providers (db w')). p_id q = sa_provider a \<longrightarrow> is_available q)
            \<and> requests (db w')
                = map (\<lambda>r. if r_id r = rid then r\<lparr>status := CANCELLED\<rparr> else r)
                    (requests (db w))
            \<and> get_request (db w') rid = Inr (req\<lparr>status := CANCELLED\<rparr>))
       \<and> (status req = PENDING \<longrightarrow>
            fst (cancel_request rid w) = Inr ()
            \<and> task_queue w' = task_queue w \<and> assignments (db w') = assignments (db w)
            \<and> providers (db w') = providers (db w)
            \<and> requests (db w')
                = map (\<lambda>r. if r_id r = rid then r\<lparr>status := CANCELLED\<rparr> else r)
                    (requests (db w))
            \<and> get_request (db w') rid = Inr (req\<lparr>status := CANCELLED\<rparr>))
       \<and> (fst (cancel_request rid w) = Inr () \<longrightarrow>
            get_request (db w') rid = Inr (req\<lparr>status := CANCELLED\<rparr>)
            \<and> cancel_request rid w' = (Inr (), w'))"
proof (intro conjI impI)
  assume "status req = COMPLETED"
  then show "cancel_request rid w
              = (Inl (ValueError ''Completed request cannot be cancelled''), w)"
    unfolding cancel_request_def
    by (intro atomic_Inl cancel_body_completed [OF l g])
next
  assume "status req = CANCELLED"
  then show "cancel_request rid w = (Inr (), w)"
    by (rule cancel_request_cancelled [OF l g])
next
  assume h: "status req = DISPATCHED \<and> assignment_of (db w) req = Some a
            \<and> provider_of (db w) a = Inr p"
  then have st: "status req = DISPATCHED" and a: "assignment_of (db w) req = Some a"
    and p: "provider_of (db w) a = Inr p" by simp_all
  have c: "cancel_request rid w
       = (Inr (), w\<lparr>db := (db w)\<lparr>providers :=
               map (\<lambda>q. if p_id q = sa_provider a then q\<lparr>is_available := True\<rparr> else q)
                 (providers (db w)),
             requests := map (\<lambda>r. if r_id r = rid then r\<lparr>status := CANCELLED\<rparr> else r)
                 (requests (db w))\<rparr>\<rparr>)"
    unfolding cancel_request_def
    by (rule atomic_no_hooks) (rule cancel_body_dispatched [OF l g st a p])
  show "fst (cancel_request rid w) = Inr ()" by (simp add: c)
  show "task_queue w' = task_queue w" by (simp add: w'_def c)
  show "assignments (db w') = assignments (db w)" by (simp add: w'_def c)
  show pr: "providers (db w')
                = map (\<lambda>q. if p_id q = sa_provider a then q\<lparr>is_available := True\<rparr> else q)
                    (providers (db w))" by (simp add: w'_def c)
  show "\<forall>q \<in> set (providers (db w')). p_id q = sa_provider a \<longrightarrow> is_available q"
    by (rule released_all_available [OF pr])
  show rq: "requests (db w')
                = map (\<lambda>r. if r_id r = rid then r\<lparr>status := CANCELLED\<rparr> else r)
                    (requests (db w))" by (simp add: w'_def c)
  show "get_request (db w') rid = Inr (req\<lparr>status := CANCELLED\<rparr>)"
    by (rule get_request_status_update [OF rq g])
next
  assume st: "status req = PENDING"
  have c: "cancel_request rid w
       = (Inr (), w\<lparr>db := (db w)\<lparr>requests :=
             map (\<lambda>r. if r_id r = rid then r\<lparr>status := CANCELLED\<rparr> else r)
                 (requests (db w))\<rparr>\<rparr>)"
    unfolding cancel_request_def
    by (rule atomic_no_hooks) (rule cancel_body_pending [OF l g st])
  show "fst (cancel_request rid w) = Inr ()" by (simp add: c)
  show "task_queue w' = task_queue w" by (simp add: w'_def c)
  show "assignments (db w') = assignments (db w)" by (simp add: w'_def c)
  show "providers (db w') = providers (db w)" by (simp add: w'_def c)
  show rq: "requests (db w')
                = map (\<lambda>r. if r_id r = rid then r\<lparr>status := CANCELLED\<rparr> else r)
                    (requests (db w))" by (simp add: w'_def c)
  show "get_request (db w') rid = Inr (req\<lparr>status := CANCELLED\<rparr>)"
    by (rule get_request_status_update [OF rq g])
next
  assume s: "fst (cancel_request rid w) = Inr ()"
  show n: "get_request (db w') rid = Inr (req\<lparr>status := CANCELLED\<rparr>)"
    unfolding w'_def by (rule cancel_request_success_state [OF l g s])
  have l': "locks_outer_join (db w')"
    using l atomic_failure_unchanged [of "cancel_body rid" w]
    by (cases "cancel_body rid (db w)")
      (auto simp: w'_def cancel_request_def atomic_def cancel_body_def Let_def save_status_def
        save_is_available_def commit_def split: sum.splits if_splits option.splits)
  show "cancel_request rid w' = (Inr (), w')"
    by (rule cancel_request_cancelled [OF l' n]) simp
qed

text \<open>
  C5 fails on PostgreSQL. Requests 1 to 4 of \<open>postgres_world\<close> are DISPATCHED (assigned
  to provider 7), PENDING, COMPLETED and CANCELLED. Cancel of each of them raises
  NotSupportedError at the query that locks the request joined to its assignment, and
  nothing changes: the COMPLETED request is not refused with the ValueError, the
  CANCELLED one is not a successful no-op, and the DISPATCHED and the PENDING one are not
  cancelled; provider 7 is not released.
\<close>

theorem cancel_refused_on_postgres:
  "map (\<lambda>rid. map_sum id status (get_request (db postgres_world) rid)) [1, 2, 3, 4]
     = [Inr DISPATCHED, Inr PENDING, Inr COMPLETED, Inr CANCELLED]
   \<and> assignment_of (db postgres_world) (mk_request 1 0 0 DISPATCHED)
       = Some \<lparr>sa_request = 1, sa_provider = 7\<rparr>
   \<and> map (\<lambda>rid. cancel_request rid postgres_world) [1, 2, 3, 4]
       = replicate 4 (Inl NotSupportedError, postgres_world)
   \<and> providers (db (snd (cancel_request 1 postgres_world))) = [mk_provider 7 0 0 False]"
  by (simp add: postgres_world_def served_world_def mk_request_def mk_provider_def
      get_request_def assignment_of_def cancel_request_def atomic_def cancel_body_def
      get_request_with_assignment_def numeral_eq_Suc)

section \<open>The request state machine and the engine invariant\<close>

lemma set_status_rows:
  "r' \<in> set (set_status rid s rs) \<longleftrightarrow> (\<exists>r \<in> set rs. r' = (if r_id r = rid then r\<lparr>status := s\<rparr> else r))"
  by (simp only: set_map image_iff)

lemma set_available_rows:
  "q' \<in> set (set_available pid b ps) \<longleftrightarrow> (\<exists>q \<in> set ps. q' = (if p_id q = pid then q\<lparr>is_available := b\<rparr> else q))"
  by (simp only: set_map image_iff)

lemma set_status_row_cases:
  assumes "r' \<in> set (set_status rid s rs)"
  obtains (hit) "r_id r' = rid" "status r' = s"
        | (miss) "r_id r' \<noteq> rid" "r' \<in> set rs"
proof -
  from assms obtain r where r: "r \<in> set rs" "r' = (if r_id r = rid then r\<lparr>status := s\<rparr> else r)"
    unfolding set_status_rows by blast
  show thesis
  proof (cases "r_id r = rid")
    case True
    with r(2) have "r' = r\<lparr>status := s\<rparr>" by simp
    with True have "r_id r' = rid" "status r' = s" by simp_all
    then show thesis by (rule hit)
  next
    case False
    with r(2) have "r' = r" by simp
    with False r(1) have "r_id r' \<noteq> rid" "r' \<in> set rs" by simp_all
    then show thesis by (rule miss)
  qed
qed

lemma set_available_row_cases:
  assumes "q' \<in> set (set_available pid b ps)"
  obtains (hit) "p_id q' = pid" "is_available q' = b"
        | (miss) "p_id q' \<noteq> pid" "q' \<in> set ps"
proof -
  from assms obtain q where q: "q \<in> set ps" "q' = (if p_id q = pid then q\<lparr>is_available := b\<rparr> else q)"
    unfolding set_available_rows by blast
  show thesis
  proof (cases "p_id q = pid")
    case True
    with q(2) have "q' = q\<lparr>is_available := b\<rparr>" by simp
    with True have "p_id q' = pid" "is_available q' = b" by simp_all
    then show thesis by (rule hit)
  next
    case False
    with q(2) have "q' = q" by simp
    with False q(1) have "p_id q' \<noteq> pid" "q' \<in> set ps" by simp_all
    then show thesis by (rule miss)
  qed
qed

lemma set_status_keeps_others:
  assumes "r \<in> set rs" "r_id r \<noteq> rid"
  shows "r \<in> set (set_status rid s rs)"
proof -
  have e: "r = (if r_id r = rid then r\<lparr>status := s\<rparr> else r)" using assms(2) by simp
  show ?thesis unfolding set_status_rows using e assms(1) by (rule bexI)
qed

lemma set_status_hits:
  assumes "r \<in> set rs" "r_id r = rid"
  shows "r\<lparr>status := s\<rparr> \<in> set (set_status rid s rs)"
proof -
  have e: "r\<lparr>status := s\<rparr> = (if r_id r = rid then r\<lparr>status := s\<rparr> else r)"
    using assms(2) by simp
  show ?thesis unfolding set_status_rows using e assms(1) by (rule bexI)
qed

lemma non_terminal_set_status_D:
  assumes rq: "requests d' = set_status rid s (requests d)"
    and n: "non_terminal d' x"
  shows "if x = rid then s \<noteq> COMPLETED \<and> s \<noteq> CANCELLED else non_terminal d x"
proof -
  from n obtain r' where r': "r' \<in> set (set_status rid s (requests d))" "r_id r' = x"
      "status r' \<noteq> COMPLETED" "status r' \<noteq> CANCELLED"
    unfolding non_terminal_def rq by blast
  from r'(1) show ?thesis
  proof (cases rule: set_status_row_cases)
    case hit
    from hit(1) r'(2) have "x = rid" by simp
    moreover from hit(2) r'(3,4) have "s \<noteq> COMPLETED \<and> s \<noteq> CANCELLED" by simp
    ultimately show ?thesis by simp
  next
    case miss
    from miss(1) r'(2) have "x \<noteq> rid" by simp
    moreover have "non_terminal d x"
      unfolding non_terminal_def using miss(2) r'(2-4) by (intro bexI [of _ r']) simp_all
    ultimately show ?thesis by simp
  qed
qed


lemma non_terminal_set_status_I:
  assumes rq: "requests d' = set_status rid s (requests d)" and g: "get_request d rid = Inr req"
    and h: "if x = rid then s \<noteq> COMPLETED \<and> s \<noteq> CANCELLED else non_terminal d x"
  shows "non_terminal d' x"
proof (cases "x = rid")
  case True
  have i: "r_id req = rid" and m: "req \<in> set (requests d)"
    by (rule get_request_row(1) [OF g], rule get_request_row(2) [OF g])
  from m i have "req\<lparr>status := s\<rparr> \<in> set (set_status rid s (requests d))"
    by (rule set_status_hits)
  moreover have "r_id (req\<lparr>status := s\<rparr>) = x" using True i by simp
  moreover have "status (req\<lparr>status := s\<rparr>) \<noteq> COMPLETED"
    "status (req\<lparr>status := s\<rparr>) \<noteq> CANCELLED"
    using h True by simp_all
  ultimately show ?thesis
    unfolding non_terminal_def rq by blast
next
  case False
  with h have "non_terminal d x" by simp
  then obtain r where r: "r \<in> set (requests d)" "r_id r = x" "status r \<noteq> COMPLETED"
      "status r \<noteq> CANCELLED"
    unfolding non_terminal_def by blast
  from r(1,2) False have m: "r \<in> set (set_status rid s (requests d))"
    by (intro set_status_keeps_others) simp_all
  from m r(2-4) show ?thesis
    unfolding non_terminal_def rq by blast
qed

lemma non_terminal_set_status:
  assumes rq: "requests d' = set_status rid s (requests d)" and g: "get_request d rid = Inr req"
  shows "non_terminal d' x \<longleftrightarrow>
           (if x = rid then s \<noteq> COMPLETED \<and> s \<noteq> CANCELLED else non_terminal d x)"
  using non_terminal_set_status_D [OF rq] non_terminal_set_status_I [OF rq g] by blast


lemma no_pending_assignmentD:
  "no_pending_assignment d \<Longrightarrow> a \<in> set (assignments d) \<Longrightarrow> r \<in> set (requests d) \<Longrightarrow>
   r_id r = sa_request a \<Longrightarrow> status r \<noteq> PENDING"
  unfolding no_pending_assignment_def by blast

lemma busy_when_linkedD:
  "busy_when_linked d \<Longrightarrow> a \<in> set (assignments d) \<Longrightarrow> non_terminal d (sa_request a) \<Longrightarrow>
   q \<in> set (providers d) \<Longrightarrow> p_id q = sa_provider a \<Longrightarrow> \<not> is_available q"
  unfolding busy_when_linked_def by blast

lemma no_double_bookingD:
  "no_double_booking d \<Longrightarrow> a \<in> set (assignments d) \<Longrightarrow> b \<in> set (assignments d) \<Longrightarrow>
   sa_provider a = sa_provider b \<Longrightarrow> non_terminal d (sa_request a) \<Longrightarrow>
   non_terminal d (sa_request b) \<Longrightarrow> sa_request a = sa_request b"
  unfolding no_double_booking_def by blast

lemma engine_invD:
  assumes "engine_inv d"
  shows "no_pending_assignment d" "no_double_booking d" "busy_when_linked d"
  using assms by (simp_all add: engine_inv_def)

lemma request_non_terminal:
  assumes g: "get_request d rid = Inr req"
    and "status req \<noteq> COMPLETED" "status req \<noteq> CANCELLED"
  shows "non_terminal d rid"
  unfolding non_terminal_def
  using get_request_row(1) [OF g] get_request_row(2) [OF g] assms(2,3) by blast

lemma inv_close_form:
  assumes inv: "engine_inv d" and g: "get_request d rid = Inr req"
    and tm: "s = COMPLETED \<or> s = CANCELLED"
    and pr: "providers d' = providers d"
    and rq: "requests d' = set_status rid s (requests d)"
    and as: "assignments d' = assignments d"
  shows "engine_inv d'"
proof -
  note npa = engine_invD(1) [OF inv] and ndb = engine_invD(2) [OF inv]
    and bwl = engine_invD(3) [OF inv]
  have nt: "non_terminal d x" if "non_terminal d' x" for x
    using non_terminal_set_status_D [OF rq that] tm by (cases "x = rid") auto
  have A: "no_pending_assignment d'"
    unfolding no_pending_assignment_def
  proof (intro ballI impI)
    fix a r'
    assume a: "a \<in> set (assignments d')" and r': "r' \<in> set (requests d')"
      and e: "r_id r' = sa_request a"
    from r' have "r' \<in> set (set_status rid s (requests d))" by (simp only: rq)
    then show "status r' \<noteq> PENDING"
    proof (cases rule: set_status_row_cases)
      case hit
      with tm show ?thesis by auto
    next
      case miss
      from a have "a \<in> set (assignments d)" by (simp only: as)
      from no_pending_assignmentD [OF npa this miss(2) e] show ?thesis .
    qed
  qed
  have B: "busy_when_linked d'"
    unfolding busy_when_linked_def
  proof (intro ballI impI)
    fix a q
    assume a: "a \<in> set (assignments d')" and n: "non_terminal d' (sa_request a)"
      and q: "q \<in> set (providers d')" and e: "p_id q = sa_provider a"
    from a have a': "a \<in> set (assignments d)" by (simp only: as)
    from q have q': "q \<in> set (providers d)" by (simp only: pr)
    from busy_when_linkedD [OF bwl a' nt [OF n] q' e] show "\<not> is_available q" .
  qed
  have C: "no_double_booking d'"
    unfolding no_double_booking_def
  proof (intro ballI impI)
    fix a b
    assume a: "a \<in> set (assignments d')" and b: "b \<in> set (assignments d')"
      and h: "sa_provider a = sa_provider b \<and> non_terminal d' (sa_request a)
               \<and> non_terminal d' (sa_request b)"
    from a b have a': "a \<in> set (assignments d)" and b': "b \<in> set (assignments d)"
      by (simp_all only: as)
    from h have "sa_provider a = sa_provider b" "non_terminal d (sa_request a)"
      "non_terminal d (sa_request b)" by (auto intro: nt)
    with no_double_bookingD [OF ndb a' b'] show "sa_request a = sa_request b" by blast
  qed
  from A B C show ?thesis by (simp add: engine_inv_def)
qed


lemma inv_release_form:
  assumes inv: "engine_inv d" and g: "get_request d rid = Inr req"
    and st: "status req = DISPATCHED"
    and a0: "a0 \<in> set (assignments d)" and a0r: "sa_request a0 = rid"
    and tm: "s = COMPLETED \<or> s = CANCELLED"
    and pr: "providers d' = set_available (sa_provider a0) True (providers d)"
    and rq: "requests d' = set_status rid s (requests d)"
    and as: "assignments d' = assignments d"
  shows "engine_inv d'"
proof -
  note npa = engine_invD(1) [OF inv] and ndb = engine_invD(2) [OF inv]
    and bwl = engine_invD(3) [OF inv]
  have nt: "non_terminal d x" if "non_terminal d' x" for x
    using non_terminal_set_status_D [OF rq that] tm by (cases "x = rid") auto
  have ntr: "x \<noteq> rid" if "non_terminal d' x" for x
    using non_terminal_set_status_D [OF rq that] tm by (cases "x = rid") auto
  have nt0: "non_terminal d (sa_request a0)"
    unfolding a0r using st by (intro request_non_terminal [OF g]) simp_all
  have A: "no_pending_assignment d'"
    unfolding no_pending_assignment_def
  proof (intro ballI impI)
    fix a r'
    assume a: "a \<in> set (assignments d')" and r': "r' \<in> set (requests d')"
      and e: "r_id r' = sa_request a"
    from r' have "r' \<in> set (set_status rid s (requests d))" by (simp only: rq)
    then show "status r' \<noteq> PENDING"
    proof (cases rule: set_status_row_cases)
      case hit
      with tm show ?thesis by auto
    next
      case miss
      from a have "a \<in> set (assignments d)" by (simp only: as)
      from no_pending_assignmentD [OF npa this miss(2) e] show ?thesis .
    qed
  qed
  have B: "busy_when_linked d'"
    unfolding busy_when_linked_def
  proof (intro ballI impI)
    fix a q
    assume a: "a \<in> set (assignments d')" and n: "non_terminal d' (sa_request a)"
      and q: "q \<in> set (providers d')" and e: "p_id q = sa_provider a"
    from a have a': "a \<in> set (assignments d)" by (simp only: as)
    from q have "q \<in> set (set_available (sa_provider a0) True (providers d))"
      by (simp only: pr)
    then show "\<not> is_available q"
    proof (cases rule: set_available_row_cases)
      case hit
      with e have "sa_provider a = sa_provider a0" by simp
      from no_double_bookingD [OF ndb a' a0 this nt [OF n] nt0]
      have "sa_request a = rid" by (simp only: a0r)
      with ntr [OF n] show ?thesis by simp
    next
      case miss
      from busy_when_linkedD [OF bwl a' nt [OF n] miss(2) e] show ?thesis .
    qed
  qed
  have C: "no_double_booking d'"
    unfolding no_double_booking_def
  proof (intro ballI impI)
    fix a b
    assume a: "a \<in> set (assignments d')" and b: "b \<in> set (assignments d')"
      and h: "sa_provider a = sa_provider b \<and> non_terminal d' (sa_request a)
               \<and> non_terminal d' (sa_request b)"
    from a b have a': "a \<in> set (assignments d)" and b': "b \<in> set (assignments d)"
      by (simp_all only: as)
    from h have "sa_provider a = sa_provider b" "non_terminal d (sa_request a)"
      "non_terminal d (sa_request b)" by (auto intro: nt)
    with no_double_bookingD [OF ndb a' b'] show "sa_request a = sa_request b" by blast
  qed
  from A B C show ?thesis by (simp add: engine_inv_def)
qed

lemma inv_dispatch_form:
  assumes inv: "engine_inv d" and g: "get_request d rid = Inr req"
    and st: "status req = PENDING"
    and p: "p \<in> set (providers d)" and pa: "is_available p"
    and pr: "providers d' = set_available (p_id p) False (providers d)"
    and rq: "requests d' = set_status rid DISPATCHED (requests d)"
    and as: "assignments d' = assignments d @ [\<lparr>sa_request = rid, sa_provider = p_id p\<rparr>]"
  shows "engine_inv d'"
proof -
  note npa = engine_invD(1) [OF inv] and ndb = engine_invD(2) [OF inv]
    and bwl = engine_invD(3) [OF inv]
  have ntr: "non_terminal d rid"
    using st by (intro request_non_terminal [OF g]) simp_all
  have nt: "non_terminal d x" if "non_terminal d' x" for x
    using non_terminal_set_status_D [OF rq that] ntr by (cases "x = rid") auto
  have mem: "a \<in> set (assignments d) \<or> a = \<lparr>sa_request = rid, sa_provider = p_id p\<rparr>"
    if "a \<in> set (assignments d')" for a
    using that unfolding as by auto
  have free: "sa_provider a \<noteq> p_id p"
    if "a \<in> set (assignments d)" "non_terminal d (sa_request a)" for a
  proof
    assume "sa_provider a = p_id p"
    then have "p_id p = sa_provider a" by simp
    from busy_when_linkedD [OF bwl that p this] pa show False by simp
  qed
  have A: "no_pending_assignment d'"
    unfolding no_pending_assignment_def
  proof (intro ballI impI)
    fix a r'
    assume a: "a \<in> set (assignments d')" and r': "r' \<in> set (requests d')"
      and e: "r_id r' = sa_request a"
    from r' have "r' \<in> set (set_status rid DISPATCHED (requests d))" by (simp only: rq)
    then show "status r' \<noteq> PENDING"
    proof (cases rule: set_status_row_cases)
      case hit
      then show ?thesis by simp
    next
      case miss
      from mem [OF a] miss(1) e have "a \<in> set (assignments d)" by auto
      from no_pending_assignmentD [OF npa this miss(2) e] show ?thesis .
    qed
  qed
  have B: "busy_when_linked d'"
    unfolding busy_when_linked_def
  proof (intro ballI impI)
    fix a q
    assume a: "a \<in> set (assignments d')" and n: "non_terminal d' (sa_request a)"
      and q: "q \<in> set (providers d')" and e: "p_id q = sa_provider a"
    from q have "q \<in> set (set_available (p_id p) False (providers d))"
      by (simp only: pr)
    then show "\<not> is_available q"
    proof (cases rule: set_available_row_cases)
      case hit
      then show ?thesis by simp
    next
      case miss
      from mem [OF a] miss(1) e have a': "a \<in> set (assignments d)" by auto
      from busy_when_linkedD [OF bwl a' nt [OF n] miss(2) e] show ?thesis .
    qed
  qed
  have C: "no_double_booking d'"
    unfolding no_double_booking_def
  proof (intro ballI impI)
    fix a b
    assume a: "a \<in> set (assignments d')" and b: "b \<in> set (assignments d')"
      and h: "sa_provider a = sa_provider b \<and> non_terminal d' (sa_request a)
               \<and> non_terminal d' (sa_request b)"
    from h have e: "sa_provider a = sa_provider b" and na: "non_terminal d (sa_request a)"
      and nb: "non_terminal d (sa_request b)" by (auto intro: nt)
    from mem [OF a] mem [OF b] show "sa_request a = sa_request b"
    proof (elim disjE)
      assume "a \<in> set (assignments d)" "b \<in> set (assignments d)"
      from no_double_bookingD [OF ndb this e na nb] show ?thesis .
    next
      assume a': "a \<in> set (assignments d)" and "b = \<lparr>sa_request = rid, sa_provider = p_id p\<rparr>"
      with e have "sa_provider a = p_id p" by simp
      with free [OF a' na] show ?thesis by simp
    next
      assume "a = \<lparr>sa_request = rid, sa_provider = p_id p\<rparr>" and b': "b \<in> set (assignments d)"
      with e have "sa_provider b = p_id p" by simp
      with free [OF b' nb] show ?thesis by simp
    next
      assume "a = \<lparr>sa_request = rid, sa_provider = p_id p\<rparr>"
        "b = \<lparr>sa_request = rid, sa_provider = p_id p\<rparr>"
      then show ?thesis by simp
    qed
  qed
  from A B C show ?thesis by (simp add: engine_inv_def)
qed

lemma initial_engine_inv: "initial_state d \<Longrightarrow> engine_inv d"
  by (simp add: initial_state_def engine_inv_def no_pending_assignment_def
      no_double_booking_def busy_when_linked_def)


lemma assignment_of_Some:
  "assignment_of d req = Some a \<Longrightarrow> a \<in> set (assignments d) \<and> sa_request a = r_id req"
  by (auto simp: assignment_of_def find_Some_iff)

lemma dispatch_effect:
  fixes fp w rid
  defines "w' \<equiv> snd (assign_provider_atomic fp rid w)"
  obtains (unchanged) "w' = w"
  | (dispatched) req p where "get_request (db w) rid = Inr req" "status req = PENDING"
      "p \<in> set (providers (db w))" "is_available p"
      "providers (db w') = set_available (p_id p) False (providers (db w))"
      "requests (db w') = set_status rid DISPATCHED (requests (db w))"
      "assignments (db w') = assignments (db w) @ [\<lparr>sa_request = rid, sa_provider = p_id p\<rparr>]"
proof (cases "assign_provider_body fp rid (db w)")
  case (Inl e)
  have "w' = w"
    unfolding w'_def assign_provider_atomic_def
    using atomic_Inl [of "assign_provider_body fp rid" w, OF Inl] by simp
  then show thesis by (rule unchanged)
next
  case (Inr x)
  from assign_provider_body_Inr_cases [OF Inr] obtain req p where
    g: "get_request (db w) rid = Inr req" and st: "status req = PENDING"
    and m: "py_min (filter is_available (providers (db w))) (distance_to fp req) = Inr p"
    and na: "\<forall>a \<in> set (assignments (db w)). sa_request a \<noteq> rid" by blast
  note b = assign_provider_body_success [OF g st m na]
  have p: "p \<in> set (providers (db w))" "is_available p" using py_min_member [OF m] by simp_all
  have w': "w' = run_hook (NotifyDelay rid)
                (commit ((db w)\<lparr>providers := set_available (p_id p) False (providers (db w)),
                      requests := set_status rid DISPATCHED (requests (db w)),
                      assignments := assignments (db w) @ [\<lparr>sa_request = rid, sa_provider = p_id p\<rparr>]\<rparr>) w)"
    unfolding w'_def assign_provider_atomic_def
    using atomic_Inr [of "assign_provider_body fp rid" w, OF b] by simp
  have 1: "providers (db w') = set_available (p_id p) False (providers (db w))"
    and 2: "requests (db w') = set_status rid DISPATCHED (requests (db w))"
    and 3: "assignments (db w') = assignments (db w) @ [\<lparr>sa_request = rid, sa_provider = p_id p\<rparr>]"
    unfolding w' by (simp_all add: commit_def)
  from g st p 1 2 3 show thesis by (rule dispatched)
qed

lemma complete_effect:
  fixes w rid
  defines "w' \<equiv> snd (complete_request rid w)"
  obtains (unchanged) "w' = w"
  | (completed) req a where "get_request (db w) rid = Inr req" "status req = DISPATCHED"
      "a \<in> set (assignments (db w))" "sa_request a = rid"
      "providers (db w') = set_available (sa_provider a) True (providers (db w))"
      "requests (db w') = set_status rid COMPLETED (requests (db w))"
      "assignments (db w') = assignments (db w)"
proof (cases "complete_body rid (db w)")
  case (Inl e)
  have "w' = w"
    unfolding w'_def complete_request_def
    using atomic_Inl [of "complete_body rid" w, OF Inl] by simp
  then show thesis by (rule unchanged)
next
  case (Inr x)
  have l: "locks_outer_join (db w)" by (rule locking_join_needed(1) [OF Inr])
  show thesis
  proof (cases "get_request (db w) rid")
    case (Inl e)
    with Inr l show thesis by (simp add: complete_body_not_found)
  next
    case g: (Inr req)
    have st: "status req = DISPATCHED"
      using Inr complete_body_invalid_state [OF l g] by (cases "status req = DISPATCHED") auto
    from Inr complete_body_no_assignment [OF l g st] obtain a where
      a: "assignment_of (db w) req = Some a" by (cases "assignment_of (db w) req") auto
    from Inr complete_body_no_provider [OF l g st a] obtain p where
      p: "provider_of (db w) a = Inr p" by (cases "provider_of (db w) a") auto
    have w': "w' = w\<lparr>db := (db w)\<lparr>providers := set_available (sa_provider a) True (providers (db w)),
                 requests := set_status rid COMPLETED (requests (db w))\<rparr>\<rparr>"
      unfolding w'_def complete_request_def
      using atomic_no_hooks [of "complete_body rid" w, OF complete_body_success [OF l g st a p]]
      by simp
    have 1: "providers (db w') = set_available (sa_provider a) True (providers (db w))"
      and 2: "requests (db w') = set_status rid COMPLETED (requests (db w))"
      and 3: "assignments (db w') = assignments (db w)"
      unfolding w' by simp_all
    from assignment_of_Some [OF a] get_request_row(1) [OF g]
    have 4: "a \<in> set (assignments (db w))" and 5: "sa_request a = rid" by simp_all
    from g st 4 5 1 2 3 show thesis by (rule completed)
  qed
qed

lemma cancel_effect:
  fixes w rid
  defines "w' \<equiv> snd (cancel_request rid w)"
  obtains (unchanged) "w' = w"
  | (released) req a where "get_request (db w) rid = Inr req" "status req = DISPATCHED"
      "a \<in> set (assignments (db w))" "sa_request a = rid"
      "providers (db w') = set_available (sa_provider a) True (providers (db w))"
      "requests (db w') = set_status rid CANCELLED (requests (db w))"
      "assignments (db w') = assignments (db w)"
  | (closed) req where "get_request (db w) rid = Inr req"
      "status req = PENDING \<or> status req = DISPATCHED"
      "providers (db w') = providers (db w)"
      "requests (db w') = set_status rid CANCELLED (requests (db w))"
      "assignments (db w') = assignments (db w)"
proof (cases "cancel_body rid (db w)")
  case (Inl e)
  have "w' = w"
    unfolding w'_def cancel_request_def
    using atomic_Inl [of "cancel_body rid" w, OF Inl] by simp
  then show thesis by (rule unchanged)
next
  case (Inr x)
  have l: "locks_outer_join (db w)" by (rule locking_join_needed(2) [OF Inr])
  show thesis
  proof (cases "get_request (db w) rid")
    case (Inl e)
    with Inr l show thesis by (simp add: cancel_body_not_found)
  next
    case g: (Inr req)
    show thesis
    proof (cases "status req")
      case COMPLETED
      from Inr cancel_body_completed [OF l g COMPLETED] show thesis by simp
    next
      case CANCELLED
      have "w' = w" unfolding w'_def using cancel_request_cancelled [OF l g CANCELLED] by simp
      then show thesis by (rule unchanged)
    next
      case PENDING
      have w': "w' = w\<lparr>db := (db w)\<lparr>requests := set_status rid CANCELLED (requests (db w))\<rparr>\<rparr>"
        unfolding w'_def cancel_request_def
        using atomic_no_hooks [of "cancel_body rid" w, OF cancel_body_pending [OF l g PENDING]]
        by simp
      have 1: "providers (db w') = providers (db w)"
        and 2: "requests (db w') = set_status rid CANCELLED (requests (db w))"
        and 3: "assignments (db w') = assignments (db w)"
        unfolding w' by simp_all
      from PENDING have "status req = PENDING \<or> status req = DISPATCHED" by simp
      from g this 1 2 3 show thesis by (rule closed)
    next
      case DISPATCHED
      show thesis
      proof (cases "assignment_of (db w) req")
        case None
        have w': "w' = w\<lparr>db := (db w)\<lparr>requests := set_status rid CANCELLED (requests (db w))\<rparr>\<rparr>"
          unfolding w'_def cancel_request_def
          using atomic_no_hooks [of "cancel_body rid" w,
              OF cancel_body_unassigned [OF l g DISPATCHED None]]
          by simp
        have 1: "providers (db w') = providers (db w)"
          and 2: "requests (db w') = set_status rid CANCELLED (requests (db w))"
          and 3: "assignments (db w') = assignments (db w)"
          unfolding w' by simp_all
        from DISPATCHED have "status req = PENDING \<or> status req = DISPATCHED" by simp
        from g this 1 2 3 show thesis by (rule closed)
      next
        case a: (Some a)
        from Inr cancel_body_no_provider [OF l g DISPATCHED a] obtain p where
          p: "provider_of (db w) a = Inr p" by (cases "provider_of (db w) a") auto
        have w': "w' = w\<lparr>db := (db w)\<lparr>providers := set_available (sa_provider a) True (providers (db w)),
                 requests := set_status rid CANCELLED (requests (db w))\<rparr>\<rparr>"
          unfolding w'_def cancel_request_def
          using atomic_no_hooks [of "cancel_body rid" w,
              OF cancel_body_dispatched [OF l g DISPATCHED a p]]
          by simp
        have 1: "providers (db w') = set_available (sa_provider a) True (providers (db w))"
          and 2: "requests (db w') = set_status rid CANCELLED (requests (db w))"
          and 3: "assignments (db w') = assignments (db w)"
          unfolding w' by simp_all
        from assignment_of_Some [OF a] get_request_row(1) [OF g]
        have 4: "a \<in> set (assignments (db w))" and 5: "sa_request a = rid" by simp_all
        from g DISPATCHED 4 5 1 2 3 show thesis by (rule released)
      qed
    qed
  qed
qed


lemma exec_preserves_engine_inv:
  assumes inv: "engine_inv (db w)"
  shows "engine_inv (db (exec fp op w))"
proof (cases op)
  case (Dispatch rid)
  show ?thesis
    unfolding Dispatch exec.simps
  proof (cases rule: dispatch_effect [of fp rid w])
    case unchanged
    with inv show "engine_inv (db (snd (assign_provider_atomic fp rid w)))" by simp
  next
    case (dispatched req p)
    from inv dispatched show "engine_inv (db (snd (assign_provider_atomic fp rid w)))"
      by (rule inv_dispatch_form)
  qed
next
  case (Complete rid)
  show ?thesis
    unfolding Complete exec.simps
  proof (cases rule: complete_effect [of rid w])
    case unchanged
    with inv show "engine_inv (db (snd (complete_request rid w)))" by simp
  next
    case (completed req a)
    have "COMPLETED = COMPLETED \<or> COMPLETED = CANCELLED" by simp
    from inv completed(1-4) this completed(5-7)
    show "engine_inv (db (snd (complete_request rid w)))"
      by (rule inv_release_form)
  qed
next
  case (Cancel rid)
  show ?thesis
    unfolding Cancel exec.simps
  proof (cases rule: cancel_effect [of rid w])
    case unchanged
    with inv show "engine_inv (db (snd (cancel_request rid w)))" by simp
  next
    case (released req a)
    have "CANCELLED = COMPLETED \<or> CANCELLED = CANCELLED" by simp
    from inv released(1-4) this released(5-7)
    show "engine_inv (db (snd (cancel_request rid w)))"
      by (rule inv_release_form)
  next
    case (closed req)
    have "CANCELLED = COMPLETED \<or> CANCELLED = CANCELLED" by simp
    from inv closed(1) this closed(3-5)
    show "engine_inv (db (snd (cancel_request rid w)))"
      by (rule inv_close_form)
  qed
qed

lemma run_preserves_engine_inv:
  "engine_inv (db w) \<Longrightarrow> engine_inv (db (run fp ops w))"
  unfolding run_def
  by (induction ops arbitrary: w) (simp_all add: exec_preserves_engine_inv)

lemma pending_has_no_assignment:
  assumes "engine_inv d" "get_request d rid = Inr req" "status req = PENDING"
  shows "assignment_of d req = None"
proof (cases "assignment_of d req")
  case None
  then show ?thesis .
next
  case (Some a)
  from assignment_of_Some [OF Some] have "a \<in> set (assignments d)" "r_id req = sa_request a"
    by simp_all
  from no_pending_assignmentD [OF engine_invD(1) [OF assms(1)] this(1)
      get_request_row(2) [OF assms(2)] this(2)] assms(3)
  show ?thesis by simp
qed

text \<open>
  C1. Start from a state with no assignments, every request PENDING and every provider
  available, and run any sequence of dispatch, complete and cancel calls (a call that
  raises leaves the state as it was), in any arithmetic and on either kind of database
  server. In the state reached, no two assignments link one provider to two different
  requests that are both non-terminal, and every provider row linked to a non-terminal
  request has \<open>is_available = False\<close>.
\<close>

theorem one_active_assignment_per_provider:
  assumes "initial_state (db w)"
  shows "no_double_booking (db (run fp ops w)) \<and> busy_when_linked (db (run fp ops w))"
proof -
  from assms have "engine_inv (db w)" by (rule initial_engine_inv)
  then have "engine_inv (db (run fp ops w))" by (rule run_preserves_engine_inv)
  then show ?thesis by (simp add: engine_inv_def)
qed

theorem one_active_assignment_per_provider_witness:
  "initial_state (db tie_world)
   \<and> no_double_booking
        (db (run binary64_sample [Dispatch 1, Dispatch 2, Complete 1, Cancel 2, Dispatch 1] tie_world))
   \<and> busy_when_linked
        (db (run binary64_sample [Dispatch 1, Dispatch 2, Complete 1, Cancel 2, Dispatch 1] tie_world))"
proof -
  have i: "initial_state (db tie_world)"
    by (simp add: initial_state_def tie_world_def mk_request_def mk_provider_def)
  from one_active_assignment_per_provider [OF i,
      of binary64_sample "[Dispatch 1, Dispatch 2, Complete 1, Cancel 2, Dispatch 1]"] i
  show ?thesis by simp
qed


lemma status_of_Some:
  "status_of w x = Some s \<longleftrightarrow> (\<exists>req. get_request (db w) x = Inr req \<and> status req = s)"
  by (cases "get_request (db w) x") (auto simp: status_of_def)

lemma status_step_form:
  assumes rq: "requests (db w') = set_status rid t (requests (db w))"
    and g: "get_request (db w) rid = Inr req" and al: "allowed (status req) t"
    and s: "status_of w x = Some s"
  shows "\<exists>s'. status_of w' x = Some s' \<and> (s' = s \<or> allowed s s')"
proof (cases "x = rid")
  case True
  from s g True have "s = status req" by (simp add: status_of_def)
  moreover from get_request_status_update [OF rq g] True
  have "status_of w' x = Some t" by (simp add: status_of_def)
  ultimately show ?thesis using al by simp
next
  case False
  from get_request_status_update_other [OF rq False] s
  have "status_of w' x = Some s" by (simp add: status_of_def)
  then show ?thesis by simp
qed

lemma exec_status_step:
  assumes s: "status_of w x = Some s"
  shows "\<exists>s'. status_of (exec fp op w) x = Some s' \<and> (s' = s \<or> allowed s s')"
proof (cases op)
  case (Dispatch rid)
  show ?thesis
    unfolding Dispatch exec.simps
  proof (cases rule: dispatch_effect [of fp rid w])
    case unchanged
    with s show "\<exists>s'. status_of (snd (assign_provider_atomic fp rid w)) x = Some s'
                   \<and> (s' = s \<or> allowed s s')" by simp
  next
    case (dispatched req p)
    from dispatched(2) have "allowed (status req) DISPATCHED" by simp
    from dispatched(6) dispatched(1) this s
    show "\<exists>s'. status_of (snd (assign_provider_atomic fp rid w)) x = Some s'
                   \<and> (s' = s \<or> allowed s s')" by (rule status_step_form)
  qed
next
  case (Complete rid)
  show ?thesis
    unfolding Complete exec.simps
  proof (cases rule: complete_effect [of rid w])
    case unchanged
    with s show "\<exists>s'. status_of (snd (complete_request rid w)) x = Some s'
                   \<and> (s' = s \<or> allowed s s')" by simp
  next
    case (completed req a)
    from completed(2) have "allowed (status req) COMPLETED" by simp
    from completed(6) completed(1) this s
    show "\<exists>s'. status_of (snd (complete_request rid w)) x = Some s'
                   \<and> (s' = s \<or> allowed s s')" by (rule status_step_form)
  qed
next
  case (Cancel rid)
  show ?thesis
    unfolding Cancel exec.simps
  proof (cases rule: cancel_effect [of rid w])
    case unchanged
    with s show "\<exists>s'. status_of (snd (cancel_request rid w)) x = Some s'
                   \<and> (s' = s \<or> allowed s s')" by simp
  next
    case (released req a)
    from released(2) have "allowed (status req) CANCELLED" by simp
    from released(6) released(1) this s
    show "\<exists>s'. status_of (snd (cancel_request rid w)) x = Some s'
                   \<and> (s' = s \<or> allowed s s')" by (rule status_step_form)
  next
    case (closed req)
    from closed(2) have "allowed (status req) CANCELLED" by auto
    from closed(4) closed(1) this s
    show "\<exists>s'. status_of (snd (cancel_request rid w)) x = Some s'
                   \<and> (s' = s \<or> allowed s s')" by (rule status_step_form)
  qed
qed

lemma terminal_status_stays:
  assumes "s = COMPLETED \<or> s = CANCELLED"
  shows "status_of w x = Some s \<Longrightarrow> status_of (run fp ops w) x = Some s"
proof (induction ops arbitrary: w)
  case Nil
  then show ?case by (simp add: run_def)
next
  case (Cons op ops)
  from exec_status_step [OF Cons.prems, of fp op] obtain s' where
    s': "status_of (exec fp op w) x = Some s'" "s' = s \<or> allowed s s'" by blast
  from assms s'(2) have "s' = s" by auto
  with s'(1) Cons.IH [of "exec fp op w"] show ?case by (simp add: run_def)
qed

lemma run_status_path:
  "status_of w x = Some s \<Longrightarrow> \<exists>s'. status_of (run fp ops w) x = Some s' \<and> allowed\<^sup>*\<^sup>* s s'"
proof (induction ops arbitrary: w s)
  case Nil
  then show ?case by (simp add: run_def)
next
  case (Cons op ops)
  from exec_status_step [OF Cons.prems, of fp op] obtain s1 where
    s1: "status_of (exec fp op w) x = Some s1" "s1 = s \<or> allowed s s1" by blast
  from Cons.IH [OF s1(1)] obtain s' where
    s': "status_of (run fp ops (exec fp op w)) x = Some s'" "allowed\<^sup>*\<^sup>* s1 s'" by blast
  from s1(2) s'(2) have "allowed\<^sup>*\<^sup>* s s'" by (auto intro: converse_rtranclp_into_rtranclp)
  with s'(1) show ?case by (auto simp: run_def)
qed

text \<open>
  A call that raises leaves the world as it was, on every server and in every arithmetic.
\<close>

lemma failed_call_unchanged:
  assumes "raised fp op w = Some e"
  shows "exec fp op w = w"
proof (cases op)
  case (Dispatch rid)
  with assms obtain e' where "fst (assign_provider_atomic fp rid w) = Inl e'"
    by (cases "fst (assign_provider_atomic fp rid w)") auto
  then have "snd (assign_provider_atomic fp rid w) = w"
    unfolding assign_provider_atomic_def by (rule atomic_failure_unchanged)
  with Dispatch show ?thesis by simp
next
  case (Complete rid)
  with assms obtain e' where "fst (complete_request rid w) = Inl e'"
    by (cases "fst (complete_request rid w)") auto
  then have "snd (complete_request rid w) = w"
    unfolding complete_request_def by (rule atomic_failure_unchanged)
  with Complete show ?thesis by simp
next
  case (Cancel rid)
  with assms obtain e' where "fst (cancel_request rid w) = Inl e'"
    by (cases "fst (cancel_request rid w)") auto
  then have "snd (cancel_request rid w) = w"
    unfolding cancel_request_def by (rule atomic_failure_unchanged)
  with Cancel show ?thesis by simp
qed

text \<open>
  Where the server accepts the locking join, a call whose target status is not reachable
  in one step from the current status of its request leaves the world unchanged and
  raises the call's ValueError for an invalid state; cancel of an already CANCELLED
  request, the idempotent case of \<open>cancel_request\<close>, returns without raising.
\<close>

lemma invalid_call_unchanged:
  assumes l: "locks_outer_join (db w)"
    and s: "status_of w (request_of op) = Some s" and na: "\<not> allowed s (target op)"
  shows "exec fp op w = w
         \<and> raised fp op w = (if s = CANCELLED \<and> target op = CANCELLED then None
                          else Some (invalid_state op))"
proof -
  from s obtain req where g: "get_request (db w) (request_of op) = Inr req" and st: "status req = s"
    unfolding status_of_Some by blast
  show ?thesis
  proof (cases op)
    case (Dispatch rid)
    from na Dispatch st have "status req \<noteq> PENDING" by auto
    with g Dispatch have "assign_provider_atomic fp rid w
        = (Inl (ValueError ''Only pending requests can be dispatched''), w)"
      unfolding assign_provider_atomic_def
      by (intro atomic_Inl assign_provider_body_invalid_state [of _ _ req]) simp_all
    with Dispatch show ?thesis by simp
  next
    case (Complete rid)
    from na Complete st have "status req \<noteq> DISPATCHED" by auto
    with l g Complete have "complete_request rid w
        = (Inl (ValueError ''Only dispatched requests can be completed''), w)"
      unfolding complete_request_def
      by (intro atomic_Inl complete_body_invalid_state [of _ _ req]) simp_all
    with Complete show ?thesis by simp
  next
    case (Cancel rid)
    from na Cancel st have "status req = COMPLETED \<or> status req = CANCELLED"
      by (cases "status req") auto
    then show ?thesis
    proof
      assume c: "status req = COMPLETED"
      with l g Cancel have "cancel_request rid w
          = (Inl (ValueError ''Completed request cannot be cancelled''), w)"
        unfolding cancel_request_def
        by (intro atomic_Inl cancel_body_completed [of _ _ req]) simp_all
      with Cancel c st show ?thesis by simp
    next
      assume c: "status req = CANCELLED"
      with l g Cancel have "cancel_request rid w = (Inr (), w)"
        by (intro cancel_request_cancelled [of _ _ req]) simp_all
      with Cancel c st show ?thesis by simp
    qed
  qed
qed

text \<open>
  The state machine of a request, on every server and in every arithmetic: a call
  changes the status of a request only along PENDING to DISPATCHED, DISPATCHED to
  COMPLETED, DISPATCHED to CANCELLED or PENDING to CANCELLED; over a sequence of calls
  the status moves along a path of such steps; a request that is COMPLETED or CANCELLED
  keeps its status through every sequence of calls; and a call that raises changes
  nothing.
\<close>

lemma status_machine:
  "(status_of w x = Some s \<longrightarrow>
      (\<exists>s'. status_of (exec fp op w) x = Some s' \<and> (s' = s \<or> allowed s s')))
   \<and> (status_of w x = Some s \<longrightarrow>
      (\<exists>s'. status_of (run fp ops w) x = Some s' \<and> allowed\<^sup>*\<^sup>* s s'))
   \<and> (status_of w x = Some s \<and> (s = COMPLETED \<or> s = CANCELLED) \<longrightarrow>
      status_of (run fp ops w) x = Some s)
   \<and> (raised fp op w \<noteq> None \<longrightarrow> exec fp op w = w)"
proof (intro conjI impI)
  assume "status_of w x = Some s"
  then show "\<exists>s'. status_of (exec fp op w) x = Some s' \<and> (s' = s \<or> allowed s s')"
    by (rule exec_status_step)
next
  assume "status_of w x = Some s"
  then show "\<exists>s'. status_of (run fp ops w) x = Some s' \<and> allowed\<^sup>*\<^sup>* s s'"
    by (rule run_status_path)
next
  assume "status_of w x = Some s \<and> (s = COMPLETED \<or> s = CANCELLED)"
  then show "status_of (run fp ops w) x = Some s"
    using terminal_status_stays [of s w x fp ops] by simp
next
  assume "raised fp op w \<noteq> None"
  then obtain e where "raised fp op w = Some e" by blast
  then show "exec fp op w = w" by (rule failed_call_unchanged)
qed

text \<open>
  C4 fails on PostgreSQL. Request 2 of \<open>postgres_world\<close> is PENDING and request 3 is
  COMPLETED. Complete of request 2 attempts PENDING to COMPLETED and cancel of request 3
  attempts COMPLETED to CANCELLED, neither of them a transition of the relation. Both
  calls leave the world unchanged, but neither raises the ValueError for an invalid
  state: each raises NotSupportedError at the query that locks the request joined to its
  assignment, before the status is looked at.
\<close>

theorem invalid_transition_refused_on_postgres:
  "status_of postgres_world 2 = Some PENDING
   \<and> \<not> allowed PENDING (target (Complete 2))
   \<and> raised binary64_sample (Complete 2) postgres_world = Some NotSupportedError
   \<and> raised binary64_sample (Complete 2) postgres_world \<noteq> Some (invalid_state (Complete 2))
   \<and> exec binary64_sample (Complete 2) postgres_world = postgres_world
   \<and> status_of postgres_world 3 = Some COMPLETED
   \<and> \<not> allowed COMPLETED (target (Cancel 3))
   \<and> raised binary64_sample (Cancel 3) postgres_world = Some NotSupportedError
   \<and> raised binary64_sample (Cancel 3) postgres_world \<noteq> Some (invalid_state (Cancel 3))
   \<and> exec binary64_sample (Cancel 3) postgres_world = postgres_world"
  by (simp add: status_of_def postgres_world_def served_world_def mk_request_def
      get_request_def complete_request_def cancel_request_def atomic_def complete_body_def
      cancel_body_def get_request_with_assignment_def)

text \<open>
  A run of the model on doubles: two dispatches in \<open>tie_world\<close> give request 1 to provider
  7 and request 2 to provider 2, leaving two active assignments and both providers busy.
\<close>

lemma tie_world_two_dispatches:
  "db (run binary64_sample [Dispatch 1, Dispatch 2] tie_world)
   = \<lparr>locks_outer_join = True,
      providers = [mk_provider 5 0 180 True, mk_provider 7 0 0 False, mk_provider 2 0 0 False],
      requests = [mk_request 1 0 0 DISPATCHED, mk_request 2 0 0 DISPATCHED],
      assignments = [\<lparr>sa_request = 1, sa_provider = 7\<rparr>, \<lparr>sa_request = 2, sa_provider = 2\<rparr>]\<rparr>"
  by (simp add: run_def sample_distances tie_world_def mk_provider_def mk_request_def
      assign_provider_atomic_def atomic_def assign_provider_body_def get_request_def py_min_def
      create_assignment_def save_is_available_def save_status_def Let_def commit_def)

section \<open>The lookup without locks\<close>

text \<open>
  \<open>find_nearest_available_provider\<close> selects the way dispatch does: it raises when no
  provider is available and, when it returns, returns the first provider, in query
  order, at the minimal computed distance.
\<close>

lemma find_nearest_available_provider_none:
  "filter is_available (providers d) = [] \<Longrightarrow>
   find_nearest_available_provider fp d lat lon
   = Inl (ValueError ''No available providers found'')"
  by (simp add: find_nearest_available_provider_def)

lemma find_nearest_available_provider_first_minimum:
  assumes "find_nearest_available_provider fp d lat lon = Inr p"
  shows "\<exists>pre post kp. filter is_available (providers d) = pre @ p # post
           \<and> haversine_distance fp lat lon (p_lat p) (p_lon p) = Inr kp
           \<and> (\<forall>q \<in> set pre. \<exists>kq. haversine_distance fp lat lon (p_lat q) (p_lon q) = Inr kq
                                 \<and> kp < kq)
           \<and> (\<forall>q \<in> set post. \<exists>kq. haversine_distance fp lat lon (p_lat q) (p_lon q) = Inr kq
                                 \<and> kp \<le> kq)"
proof -
  from assms have "py_min (filter is_available (providers d))
              (\<lambda>p. haversine_distance fp lat lon (p_lat p) (p_lon p)) = Inr p"
    by (simp add: find_nearest_available_provider_def Let_def split: if_splits)
  from py_min_selects [OF this] show ?thesis by blast
qed

end
